theory Spec2Isabelle
  imports Complex_Main "HOL-Library.AList"
begin

section \<open>Colors and values\<close>

text \<open>
  An RGB color is the Python triple \<open>(r, g, b)\<close> of integers. The module constants
  of \<open>IVoiceCue.py\<close> keep their names. Python floats are taken as exact real numbers
  (the data model speaks of real numbers), except where the result depends on how the
  operations round: the interpolated channels of the gain gradient are stated on
  \<open>color_for_gain_double\<close>, which rounds every operation as a double. Infinities
  and NaN are outside this development.
\<close>

type_synonym rgb = "int \<times> int \<times> int"

definition LED_ON_COLOR :: rgb where
  "LED_ON_COLOR = (0, 255, 0)"

definition LED_OFF_COLOR :: rgb where
  "LED_OFF_COLOR = (255, 0, 0)"

definition BLUE :: rgb where
  "BLUE = (0, 0, 255)"

definition GREEN :: rgb where
  "GREEN = (0, 255, 0)"

definition RED :: rgb where
  "RED = (255, 0, 0)"

text \<open>
  What can be raised: a division by zero, a failed access to a mixer parameter
  (strip index and parameter name), a failed request to the lighting device.
\<close>

datatype exn =
    ZeroDivisionError
  | VmError "int \<times> string"
  | SdkError int

text \<open>\<open>clamp(value, min_val, max_val)\<close>: \<open>max(min_val, min(value, max_val))\<close>.\<close>

definition clamp :: "real \<Rightarrow> real \<Rightarrow> real \<Rightarrow> real" where
  "clamp value min_val max_val = max min_val (min value max_val)"

text \<open>Python's \<open>int(x)\<close> on a float truncates towards zero.\<close>

definition py_int :: "real \<Rightarrow> int" where
  "py_int x = (if 0 \<le> x then \<lfloor>x\<rfloor> else \<lceil>x\<rceil>)"

text \<open>Python's \<open>a / b\<close> on floats raises \<open>ZeroDivisionError\<close> when \<open>b\<close> is zero.\<close>

definition py_truediv :: "real \<Rightarrow> real \<Rightarrow> exn + real" where
  "py_truediv a b = (if b = 0 then Inl ZeroDivisionError else Inr (a / b))"

text \<open>
  \<open>color_for_gain(value, origin, end)\<close>, branch by branch as in the source; the
  parameter \<open>end\<close> is written \<open>end_val\<close>. The forward and the reversed range each carry
  their own copy of the interpolation, as the source does.
\<close>

definition color_for_gain :: "real \<Rightarrow> real \<Rightarrow> real \<Rightarrow> exn + rgb" where
  "color_for_gain value origin end_val =
     (if origin = end_val then Inr RED
      else if origin < end_val then
        (if value < origin then Inr BLUE
         else if value > end_val then Inr RED
         else
           (case py_truediv (value - origin) (end_val - origin) of
              Inl e \<Rightarrow> Inl e
            | Inr ratio0 \<Rightarrow>
                (let ratio = clamp ratio0 0 1;
                     r = py_int (255 * ratio);
                     g = py_int (255 * (1 - ratio));
                     b = 0
                 in Inr (r, g, b))))
      else
        (if value < end_val then Inr RED
         else if value > origin then Inr BLUE
         else
           (case py_truediv (value - origin) (end_val - origin) of
              Inl e \<Rightarrow> Inl e
            | Inr ratio0 \<Rightarrow>
                (let ratio = clamp ratio0 0 1;
                     r = py_int (255 * ratio);
                     g = py_int (255 * (1 - ratio));
                     b = 0
                 in Inr (r, g, b)))))"

section \<open>Double arithmetic\<close>

text \<open>
  The numbers that \<open>color_for_gain\<close> computes with are Python floats, that is IEEE 754
  doubles (binary64). The difference, the product and the quotient of two doubles is
  the exact result rounded to the nearest double, a tie going to the double with the
  even significand. The two interpolated channels are truncations of such results, and
  their values depend on that rounding, so it is written out here.

  A finite double is a number \<open>m * 2 ^ e\<close> with integers \<open>\<bar>m\<bar> < 2 ^ 53\<close> and
  \<open>- 1074 \<le> e \<le> 971\<close>; a double is kept as the real number it denotes. Results of
  magnitude \<open>2 ^ 1024\<close> and above (the infinities) and NaN are not modelled.
\<close>

text \<open>The position of the leading bit: \<open>2 ^ ilog2 n \<le> n < 2 ^ (ilog2 n + 1)\<close> for \<open>n > 0\<close>.\<close>

fun ilog2 :: "nat \<Rightarrow> nat" where
  "ilog2 n = (if n < 2 then 0 else Suc (ilog2 (n div 2)))"

declare ilog2.simps [simp del]

text \<open>
  The binary exponent of a non-zero number:
  \<open>2 ^ exponent x \<le> \<bar>x\<bar> < 2 ^ (exponent x + 1)\<close>.
\<close>

definition exponent :: "real \<Rightarrow> int" where
  "exponent x =
     (if 1 \<le> \<bar>x\<bar> then int (ilog2 (nat \<lfloor>\<bar>x\<bar>\<rfloor>))
      else - int (Suc (ilog2 (nat (\<lceil>1 / \<bar>x\<bar>\<rceil> - 1)))))"

text \<open>
  The exponent of the last place of the doubles around \<open>x\<close>: 53 significant bits, and
  never below the spacing \<open>2 ^ - 1074\<close> of the subnormal numbers.
\<close>

definition quantum :: "real \<Rightarrow> int" where
  "quantum x = max (exponent x - 52) (- 1074)"

text \<open>The nearest integer, a tie going to the even one.\<close>

definition round_half_even :: "real \<Rightarrow> int" where
  "round_half_even y =
     (let f = \<lfloor>y\<rfloor>; d = y - of_int f
      in if d < 1 / 2 then f
         else if 1 / 2 < d then f + 1
         else if even f then f else f + 1)"

text \<open>The double nearest to a real number, and the finite doubles.\<close>

definition to_double :: "real \<Rightarrow> real" where
  "to_double x = of_int (round_half_even (x / 2 powi quantum x)) * 2 powi quantum x"

definition is_double :: "real \<Rightarrow> bool" where
  "is_double x \<longleftrightarrow> to_double x = x \<and> \<bar>x\<bar> < 2 ^ 1024"

text \<open>Python's \<open>a - b\<close>, \<open>a * b\<close> and \<open>a / b\<close> on floats.\<close>

definition float_sub :: "real \<Rightarrow> real \<Rightarrow> real" where
  "float_sub a b = to_double (a - b)"

definition float_mul :: "real \<Rightarrow> real \<Rightarrow> real" where
  "float_mul a b = to_double (a * b)"

definition float_truediv :: "real \<Rightarrow> real \<Rightarrow> exn + real" where
  "float_truediv a b = (if b = 0 then Inl ZeroDivisionError else Inr (to_double (a / b)))"

text \<open>
  \<open>color_for_gain(value, origin, end)\<close> on doubles: the statements of the source once
  more, with every arithmetic operation rounded as Python rounds it. The comparisons,
  \<open>float(...)\<close> of a float, \<open>clamp\<close> and \<open>int\<close> are exact.
\<close>

definition color_for_gain_double :: "real \<Rightarrow> real \<Rightarrow> real \<Rightarrow> exn + rgb" where
  "color_for_gain_double value origin end_val =
     (if origin = end_val then Inr RED
      else if origin < end_val then
        (if value < origin then Inr BLUE
         else if value > end_val then Inr RED
         else
           (case float_truediv (float_sub value origin) (float_sub end_val origin) of
              Inl e \<Rightarrow> Inl e
            | Inr ratio0 \<Rightarrow>
                (let ratio = clamp ratio0 0 1;
                     r = py_int (float_mul 255 ratio);
                     g = py_int (float_mul 255 (float_sub 1 ratio));
                     b = 0
                 in Inr (r, g, b))))
      else
        (if value < end_val then Inr RED
         else if value > origin then Inr BLUE
         else
           (case float_truediv (float_sub value origin) (float_sub end_val origin) of
              Inl e \<Rightarrow> Inl e
            | Inr ratio0 \<Rightarrow>
                (let ratio = clamp ratio0 0 1;
                     r = py_int (float_mul 255 ratio);
                     g = py_int (float_mul 255 (float_sub 1 ratio));
                     b = 0
                 in Inr (r, g, b)))))"

section \<open>Values, bindings and the outside world\<close>

text \<open>
  A mixer parameter holds a Python bool (mutes and sends) or a float (gains).
  \<open>py_float\<close> is the number that arithmetic and comparison see (\<open>True\<close> is 1),
  \<open>py_bool\<close> is \<open>bool(v)\<close>, \<open>py_eq\<close> is \<open>==\<close>.
\<close>

datatype pyval = PBool bool | PFloat real

fun py_float :: "pyval \<Rightarrow> real" where
  "py_float (PBool b) = (if b then 1 else 0)"
| "py_float (PFloat x) = x"

fun py_bool :: "pyval \<Rightarrow> bool" where
  "py_bool (PBool b) = b"
| "py_bool (PFloat x) = (x \<noteq> 0)"

definition py_eq :: "pyval \<Rightarrow> pyval \<Rightarrow> bool" where
  "py_eq a b = (py_float a = py_float b)"

text \<open>
  \<open>STRIP_CONFIG\<close>: key code to \<open>(strip_index, param_name, led_id, is_gain, range)\<close>,
  in the order of the dictionary literal. The range is \<open>None\<close> or a tuple of floats;
  \<open>0.40\<close> is written \<open>2 / 5\<close>.
\<close>

type_synonym strip_cfg = "int \<times> string \<times> int \<times> bool \<times> real list option"

definition STRIP_CONFIG :: "(int \<times> strip_cfg) list" where
  "STRIP_CONFIG =
     [(97, (0, ''B1'', 116, False, None)),
      (98, (0, ''B2'', 117, False, None)),
      (99, (0, ''B3'', 118, False, None)),
      (100, (5, ''A1'', 113, False, None)),
      (101, (6, ''A1'', 114, False, None)),
      (102, (7, ''A1'', 115, False, None)),
      (104, (5, ''gain'', 110, True, Some [0, - 30])),
      (103, (6, ''gain'', 109, True, Some [0, 2 / 5])),
      (105, (6, ''A3'', 111, False, None))]"

text \<open>
  An entry of \<open>monitored_params\<close>: the tuple
  \<open>(s_idx, p_name, current_val, led_id, is_gain, rng)\<close>.
\<close>

record param =
  s_idx :: int
  p_name :: string
  current_val :: pyval
  led_id :: int
  is_gain :: bool
  rng :: "real list option"

text \<open>The lines the program prints, one constructor for each \<open>print\<close> of the classes.\<close>

datatype line =
    LedErrorLine int exn
  | InitLine int int string pyval
  | ToggleGainLine int string pyval
  | ToggleBoolLine int string pyval
  | ExtGainLine int string pyval
  | ExtToggleLine int string pyval

text \<open>
  The state the observer works on. The mixer and the lighting device are outside the
  repository: \<open>vm\<close> gives the value of each mixer parameter, and a location it does not
  hold stands for a parameter whose access raises; \<open>device\<close> gives the color of each
  LED, and an id it does not hold stands for a request that raises. \<open>requests\<close> lists
  every color request issued to the device and \<open>printed\<close> every printed line, the most
  recent first. \<open>monitored_params\<close> is the observer's dictionary in insertion order.
\<close>

record world =
  vm :: "int \<times> string \<rightharpoonup> pyval"
  device :: "int \<rightharpoonup> rgb"
  requests :: "(int \<times> rgb) list"
  printed :: "line list"
  monitored_params :: "(int \<times> param) list"

text \<open>
  A procedure returns the exception it raised, if any, with the state it left behind.
  \<open>then_do\<close> runs the next statement unless the previous one raised.
\<close>

definition then_do ::
  "exn option \<times> world \<Rightarrow> (world \<Rightarrow> exn option \<times> world) \<Rightarrow> exn option \<times> world" where
  "then_do r f = (case r of (Some e, w) \<Rightarrow> (Some e, w) | (None, w) \<Rightarrow> f w)"

definition py_print :: "line \<Rightarrow> world \<Rightarrow> exn option \<times> world" where
  "py_print l w = (None, w\<lparr>printed := l # printed w\<rparr>)"

text \<open>\<open>getattr(self.vm.strip[s_idx], p_name)\<close> and \<open>setattr(self.vm.strip[s_idx], p_name, v)\<close>.\<close>

definition vm_getattr :: "world \<Rightarrow> int \<times> string \<Rightarrow> exn + pyval" where
  "vm_getattr w loc = (case vm w loc of None \<Rightarrow> Inl (VmError loc) | Some v \<Rightarrow> Inr v)"

definition vm_setattr :: "world \<Rightarrow> int \<times> string \<Rightarrow> pyval \<Rightarrow> exn option \<times> world" where
  "vm_setattr w loc v =
     (case vm w loc of
        None \<Rightarrow> (Some (VmError loc), w)
      | Some old \<Rightarrow> (None, w\<lparr>vm := (vm w)(loc \<mapsto> v)\<rparr>))"

text \<open>\<open>self.sdk.set_led_colors(self.device_id, [CorsairLedColor(id, r, g, b, a=255)])\<close>.\<close>

definition set_led_colors :: "world \<Rightarrow> int \<Rightarrow> rgb \<Rightarrow> exn option \<times> world" where
  "set_led_colors w lid color =
     (let w' = w\<lparr>requests := (lid, color) # requests w\<rparr>
      in case device w' lid of
           None \<Rightarrow> (Some (SdkError lid), w')
         | Some old \<Rightarrow> (None, w'\<lparr>device := (device w')(lid \<mapsto> color)\<rparr>))"

text \<open>\<open>self.monitored_params[vk] = entry\<close>.\<close>

definition store_param :: "int \<Rightarrow> param \<Rightarrow> world \<Rightarrow> exn option \<times> world" where
  "store_param vk entry w =
     (None, w\<lparr>monitored_params := AList.update vk entry (monitored_params w)\<rparr>)"

section \<open>KeyLightingController\<close>

text \<open>
  \<open>set_color(led_id, state=None, gain=None, gain_range=None)\<close>. The color defaults to
  \<open>LED_OFF_COLOR\<close>; an exception of the device is caught and printed, one of
  \<open>color_for_gain\<close> would leave the method. The dictionary \<open>led_states\<close> of the class is
  never read and is left out.
\<close>

definition set_color ::
  "world \<Rightarrow> int \<Rightarrow> pyval option \<Rightarrow> pyval option \<Rightarrow> real list option
     \<Rightarrow> exn option \<times> world" where
  "set_color w lid state gain gain_range =
     (case (if gain \<noteq> None \<and> gain_range \<noteq> None \<and> length (the gain_range) = 2
            then (let origin = the gain_range ! 0; end_val = the gain_range ! 1
                  in color_for_gain (py_float (the gain)) origin end_val)
            else if state \<noteq> None
            then Inr (if py_bool (the state) then LED_ON_COLOR else LED_OFF_COLOR)
            else Inr LED_OFF_COLOR) of
        Inl e \<Rightarrow> (Some e, w)
      | Inr color \<Rightarrow>
          (case set_led_colors w lid color of
             (Some e, w') \<Rightarrow> py_print (LedErrorLine lid e) w'
           | (None, w') \<Rightarrow> (None, w')))"

section \<open>ParameterObserver\<close>

text \<open>
  \<open>__init__\<close> reads the current value of every configured parameter into
  \<open>monitored_params\<close>; a read that raises leaves the constructor.
\<close>

fun ParameterObserver_init_loop ::
  "(int \<times> strip_cfg) list \<Rightarrow> world \<Rightarrow> exn option \<times> world" where
  "ParameterObserver_init_loop [] w = (None, w)"
| "ParameterObserver_init_loop ((vk, (si, pn, lid, ig, rg)) # rest) w =
     (case vm_getattr w (si, pn) of
        Inl e \<Rightarrow> (Some e, w)
      | Inr cur \<Rightarrow>
          then_do
            (store_param vk
               \<lparr>s_idx = si, p_name = pn, current_val = cur, led_id = lid,
                is_gain = ig, rng = rg\<rparr> w)
            (\<lambda>w'. ParameterObserver_init_loop rest w'))"

definition ParameterObserver_init :: "world \<Rightarrow> exn option \<times> world" where
  "ParameterObserver_init w =
     ParameterObserver_init_loop STRIP_CONFIG (w\<lparr>monitored_params := []\<rparr>)"

text \<open>\<open>initialize_leds\<close>: one color request and one printed line for each entry.\<close>

fun initialize_leds_loop :: "(int \<times> param) list \<Rightarrow> world \<Rightarrow> exn option \<times> world" where
  "initialize_leds_loop [] w = (None, w)"
| "initialize_leds_loop ((vk, p) # rest) w =
     then_do
       (if is_gain p \<and> rng p \<noteq> None \<and> length (the (rng p)) = 2
        then set_color w (led_id p) None (Some (current_val p)) (rng p)
        else set_color w (led_id p) (Some (current_val p)) None None)
       (\<lambda>w1. then_do (py_print (InitLine vk (s_idx p) (p_name p) (current_val p)) w1)
          (\<lambda>w2. initialize_leds_loop rest w2))"

definition initialize_leds :: "world \<Rightarrow> exn option \<times> world" where
  "initialize_leds w = initialize_leds_loop (monitored_params w) w"

text \<open>
  \<open>toggle_strip(vk)\<close>. The assignment to \<open>monitored_params[vk]\<close> that ends the method
  is written at the end of each of the two branches.
\<close>

definition toggle_strip :: "world \<Rightarrow> int \<Rightarrow> exn option \<times> world" where
  "toggle_strip w vk =
     (case map_of (monitored_params w) vk of
        None \<Rightarrow> (None, w)
      | Some p \<Rightarrow>
          if is_gain p \<and> rng p \<noteq> None \<and> length (the (rng p)) = 2
          then
            (let origin = the (rng p) ! 0;
                 end_val = the (rng p) ! 1;
                 new_val = PFloat (if py_float (current_val p) = end_val then origin else end_val)
             in then_do (vm_setattr w (s_idx p, p_name p) new_val)
                  (\<lambda>w1. then_do (set_color w1 (led_id p) None (Some new_val) (rng p))
                  (\<lambda>w2. then_do (py_print (ToggleGainLine vk (p_name p) new_val) w2)
                  (\<lambda>w3. store_param vk (p\<lparr>current_val := new_val\<rparr>) w3))))
          else
            (let new_val = PBool (\<not> py_bool (current_val p))
             in then_do (vm_setattr w (s_idx p, p_name p) new_val)
                  (\<lambda>w1. then_do (set_color w1 (led_id p) (Some new_val) None None)
                  (\<lambda>w2. then_do (py_print (ToggleBoolLine vk (p_name p) new_val) w2)
                  (\<lambda>w3. store_param vk (p\<lparr>current_val := new_val\<rparr>) w3)))))"

text \<open>
  \<open>check_updates\<close>. The loop runs over the items of \<open>monitored_params\<close>; an iteration
  assigns only to the key it is at, so the items are those of the dictionary the
  method started with.
\<close>

fun check_updates_loop :: "(int \<times> param) list \<Rightarrow> world \<Rightarrow> exn option \<times> world" where
  "check_updates_loop [] w = (None, w)"
| "check_updates_loop ((vk, p) # rest) w =
     (case vm_getattr w (s_idx p, p_name p) of
        Inl e \<Rightarrow> (Some e, w)
      | Inr cur_val \<Rightarrow>
          if \<not> py_eq cur_val (current_val p)
          then
            then_do
              (if is_gain p \<and> rng p \<noteq> None \<and> length (the (rng p)) = 2
               then then_do (set_color w (led_id p) None (Some cur_val) (rng p))
                      (\<lambda>w1. py_print (ExtGainLine vk (p_name p) cur_val) w1)
               else then_do (set_color w (led_id p) (Some cur_val) None None)
                      (\<lambda>w1. py_print (ExtToggleLine vk (p_name p) cur_val) w1))
              (\<lambda>w2. then_do (store_param vk (p\<lparr>current_val := cur_val\<rparr>) w2)
                 (\<lambda>w3. check_updates_loop rest w3))
          else check_updates_loop rest w)"

definition check_updates :: "world \<Rightarrow> exn option \<times> world" where
  "check_updates w = check_updates_loop (monitored_params w) w"

section \<open>Operation sequences and the synchronisation property\<close>

text \<open>
  What happens to an observer after its LEDs are initialised: key releases that
  toggle, polls that reconcile, and changes made from outside to the mixer and the
  device. An operation that raises ends the sequence, as it ends the program.
\<close>

datatype operation =
    Toggle int
  | Reconcile
  | External "int \<times> string \<rightharpoonup> pyval" "int \<rightharpoonup> rgb"

fun run_ops :: "operation list \<Rightarrow> world \<Rightarrow> exn option \<times> world" where
  "run_ops [] w = (None, w)"
| "run_ops (Toggle vk # ops) w = then_do (toggle_strip w vk) (\<lambda>w'. run_ops ops w')"
| "run_ops (Reconcile # ops) w = then_do (check_updates w) (\<lambda>w'. run_ops ops w')"
| "run_ops (External m d # ops) w = run_ops ops (w\<lparr>vm := m, device := d\<rparr>)"

text \<open>
  The color mapper as the specification words it: by the kind of the binding,
  \<open>colorForBoolean\<close> of the value or \<open>colorForGain\<close> of the value and the reference
  pair. A binding is of continuous-gain kind when it is flagged as a gain and carries
  a reference of two values; the data model knows no other gain binding.
\<close>

datatype kind = Boolean | ContinuousGain

definition kind_of :: "param \<Rightarrow> kind" where
  "kind_of p =
     (if is_gain p \<and> rng p \<noteq> None \<and> length (the (rng p)) = 2 then ContinuousGain else Boolean)"

definition colorForBoolean :: "bool \<Rightarrow> rgb" where
  "colorForBoolean state = (if state then LED_ON_COLOR else LED_OFF_COLOR)"

definition ColorMapper :: "param \<Rightarrow> exn + rgb" where
  "ColorMapper p =
     (case kind_of p of
        Boolean \<Rightarrow> Inr (colorForBoolean (py_bool (current_val p)))
      | ContinuousGain \<Rightarrow>
          color_for_gain (py_float (current_val p)) (the (rng p) ! 0) (the (rng p) ! 1))"

definition last_pushed :: "world \<Rightarrow> int \<Rightarrow> rgb option" where
  "last_pushed w lid = map_of (requests w) lid"

definition in_sync :: "world \<Rightarrow> bool" where
  "in_sync w =
     (\<forall>(vk, p) \<in> set (monitored_params w).
        map_option Inr (last_pushed w (led_id p)) = Some (ColorMapper p))"

text \<open>The part of an entry that the configuration fixes, with its key.\<close>

definition static_part :: "int \<times> param \<Rightarrow> int \<times> strip_cfg" where
  "static_part kp = (fst kp, (s_idx (snd kp), p_name (snd kp), led_id (snd kp),
                              is_gain (snd kp), rng (snd kp)))"

text \<open>
  The keys of \<open>monitored_params\<close> are those of a dictionary, and every binding has an
  LED of its own.
\<close>

definition well_formed :: "world \<Rightarrow> bool" where
  "well_formed w =
     (distinct (map fst (monitored_params w))
      \<and> distinct (map (\<lambda>kp. led_id (snd kp)) (monitored_params w)))"

section \<open>A small observer for concrete checks\<close>

text \<open>
  Two entries of the configuration, the mute \<open>B1\<close> of strip 0 and the gain of strip 5,
  with a mixer that holds both parameters and a device that holds both LEDs.
\<close>

definition mute_entry :: param where
  "mute_entry = \<lparr>s_idx = 0, p_name = ''B1'', current_val = PBool True, led_id = 116,
                  is_gain = False, rng = None\<rparr>"

definition gain_entry :: param where
  "gain_entry = \<lparr>s_idx = 5, p_name = ''gain'', current_val = PFloat (- 12), led_id = 110,
                  is_gain = True, rng = Some [0, - 30]\<rparr>"

definition example_world :: world where
  "example_world =
     \<lparr>vm = [(0, ''B1'') \<mapsto> PBool True, (5, ''gain'') \<mapsto> PFloat (- 12)],
      device = [116 \<mapsto> (0, 0, 0), 110 \<mapsto> (0, 0, 0)],
      requests = [],
      printed = [],
      monitored_params = [(97, mute_entry), (104, gain_entry)]\<rparr>"

text \<open>
  The same observer after the mixer lost the mute parameter and the gain was moved
  to \<open>-30\<close> from outside.
\<close>

definition broken_world :: world where
  "broken_world = example_world\<lparr>vm := [(5, ''gain'') \<mapsto> PFloat (- 30)]\<rparr>"

text \<open>
  A mixer that holds every parameter of \<open>STRIP_CONFIG\<close> and a device that holds every
  LED, before the observer is constructed.
\<close>

definition full_world :: world where
  "full_world =
     \<lparr>vm = [(0, ''B1'') \<mapsto> PBool True, (0, ''B2'') \<mapsto> PBool False,
             (0, ''B3'') \<mapsto> PBool False, (5, ''A1'') \<mapsto> PBool True,
             (6, ''A1'') \<mapsto> PBool True, (7, ''A1'') \<mapsto> PBool False,
             (5, ''gain'') \<mapsto> PFloat (- 12), (6, ''gain'') \<mapsto> PFloat (1 / 10),
             (6, ''A3'') \<mapsto> PBool False],
      device = (\<lambda>lid. Some (0, 0, 0)),
      requests = [],
      printed = [],
      monitored_params = []\<rparr>"

section \<open>The gain gradient\<close>

text \<open>Inside the closed range the quotient lies in the unit interval, whatever the order
  of the two reference values, so the clamp leaves it alone.\<close>

lemma ratio_in_unit_forward:
  fixes v :: real
  assumes "a < b" and "a \<le> v" and "v \<le> b"
  shows "0 \<le> (v - a) / (b - a)" and "(v - a) / (b - a) \<le> 1"
  using assms by (simp_all add: divide_simps)

lemma ratio_in_unit_reversed:
  fixes v :: real
  assumes "b < a" and "b \<le> v" and "v \<le> a"
  shows "0 \<le> (v - a) / (b - a)" and "(v - a) / (b - a) \<le> 1"
  using assms by (simp_all add: divide_simps)

lemma clamp_unit_id:
  assumes "0 \<le> x" and "x \<le> 1"
  shows "clamp x 0 1 = x"
  using assms by (simp add: clamp_def)

lemma clamp_unit_bounds: "0 \<le> clamp x 0 1 \<and> clamp x 0 1 \<le> 1"
  by (simp add: clamp_def)

lemma py_int_channel:
  assumes "0 \<le> t" and "t \<le> 1"
  shows "0 \<le> py_int (255 * t)" and "py_int (255 * t) \<le> 255"
proof -
  have nonneg: "0 \<le> 255 * t" using assms by simp
  then show "0 \<le> py_int (255 * t)" by (simp add: py_int_def)
  have "255 * t \<le> 255" using assms by simp
  then have "\<lfloor>255 * t\<rfloor> \<le> 255" by (simp add: floor_le_iff)
  with nonneg show "py_int (255 * t) \<le> 255" by (simp add: py_int_def)
qed

lemma color_for_gain_inside:
  assumes "origin \<noteq> end_val"
    and "min origin end_val \<le> value" and "value \<le> max origin end_val"
  shows "color_for_gain value origin end_val =
           Inr (py_int (255 * ((value - origin) / (end_val - origin))),
                py_int (255 * (1 - (value - origin) / (end_val - origin))), 0)"
proof (cases "origin < end_val")
  case True
  with assms have "origin \<le> value" "value \<le> end_val" by simp_all
  with True show ?thesis
    using ratio_in_unit_forward [of origin end_val "value"]
    by (simp add: color_for_gain_def py_truediv_def clamp_unit_id Let_def)
next
  case False
  with assms have lt: "end_val < origin" by simp
  with assms have "end_val \<le> value" "value \<le> origin" by simp_all
  with lt show ?thesis
    using ratio_in_unit_reversed [of end_val origin "value"]
    by (simp add: color_for_gain_def py_truediv_def clamp_unit_id Let_def)
qed

lemma color_for_gain_total:
  "\<exists>r g b. color_for_gain value origin end_val = Inr (r, g, b)
     \<and> 0 \<le> r \<and> r \<le> 255 \<and> 0 \<le> g \<and> g \<le> 255 \<and> 0 \<le> b \<and> b \<le> 255"
proof -
  consider (degenerate) "origin = end_val"
    | (below) "origin \<noteq> end_val" "value < min origin end_val"
    | (above) "origin \<noteq> end_val" "max origin end_val < value"
    | (inside) "origin \<noteq> end_val" "min origin end_val \<le> value" "value \<le> max origin end_val"
    by linarith
  then show ?thesis
  proof cases
    case degenerate
    then show ?thesis by (simp add: color_for_gain_def RED_def)
  next
    case below
    then show ?thesis by (auto simp add: color_for_gain_def RED_def BLUE_def)
  next
    case above
    then show ?thesis by (auto simp add: color_for_gain_def RED_def BLUE_def)
  next
    case inside
    define t where "t = (value - origin) / (end_val - origin)"
    have t: "0 \<le> t \<and> t \<le> 1"
    proof (cases "origin < end_val")
      case True
      with inside show ?thesis
        using ratio_in_unit_forward [of origin end_val "value"] by (simp add: t_def)
    next
      case False
      with inside show ?thesis
        using ratio_in_unit_reversed [of end_val origin "value"] by (simp add: t_def)
    qed
    then have t': "0 \<le> 1 - t \<and> 1 - t \<le> 1" by simp
    have eq: "color_for_gain value origin end_val =
        Inr (py_int (255 * t), py_int (255 * (1 - t)), 0)"
      unfolding t_def using inside by (rule color_for_gain_inside)
    have "0 \<le> py_int (255 * t)" "py_int (255 * t) \<le> 255"
      using py_int_channel [of t] t by simp_all
    moreover have "0 \<le> py_int (255 * (1 - t))" "py_int (255 * (1 - t)) \<le> 255"
      using py_int_channel [of "1 - t"] t' by simp_all
    ultimately show ?thesis
      unfolding eq by simp
  qed
qed

text \<open>
  Claim C5. For \<open>origin \<noteq> end\<close>, in either order, \<open>color_for_gain\<close> at \<open>origin\<close> is
  the origin color green \<open>(0, 255, 0)\<close> and at \<open>end\<close> the end color red \<open>(255, 0, 0)\<close>.
\<close>

theorem color_for_gain_endpoints:
  assumes "origin \<noteq> end_val"
  shows "color_for_gain origin origin end_val = Inr GREEN
         \<and> GREEN = (0, 255, 0)
         \<and> color_for_gain end_val origin end_val = Inr RED
         \<and> RED = (255, 0, 0)"
proof -
  from assms have nz: "end_val - origin \<noteq> 0" by simp
  have "color_for_gain origin origin end_val = Inr GREEN"
    using assms color_for_gain_inside [of origin end_val origin]
    by (simp add: py_int_def GREEN_def)
  moreover have "color_for_gain end_val origin end_val = Inr RED"
    using assms nz color_for_gain_inside [of origin end_val end_val]
    by (simp add: py_int_def RED_def)
  ultimately show ?thesis by (simp add: GREEN_def RED_def)
qed

theorem color_for_gain_endpoints_witness:
  "(0::real) \<noteq> -30
   \<and> color_for_gain 0 0 (-30) = Inr (0, 255, 0) \<and> color_for_gain (-30) 0 (-30) = Inr (255, 0, 0)
   \<and> (0::real) \<noteq> 2 / 5
   \<and> color_for_gain 0 0 (2 / 5) = Inr (0, 255, 0)
   \<and> color_for_gain (2 / 5) 0 (2 / 5) = Inr (255, 0, 0)"
proof -
  have h1: "(0::real) \<noteq> -30" by simp
  have h2: "(0::real) \<noteq> 2 / 5" by simp
  have g: "GREEN = (0, 255, 0)" "RED = (255, 0, 0)"
    by (simp_all add: GREEN_def RED_def)
  from color_for_gain_endpoints [OF h1] color_for_gain_endpoints [OF h2] h1 h2
  show ?thesis unfolding g by blast
qed

text \<open>
  Claim C6. For \<open>origin \<noteq> end\<close>, a value outside the closed range on the origin side
  gives the below-range color blue \<open>(0, 0, 255)\<close>, a value outside on the end side gives
  the end color red \<open>(255, 0, 0)\<close>; with the pair \<open>(0.0, -30.0)\<close> the value \<open>-40.0\<close> is
  red, \<open>5.0\<close> is blue, and \<open>-15.0\<close> is \<open>(r, g, 0)\<close> with \<open>r\<close> and \<open>g\<close> each 127 or 128.
\<close>

theorem color_for_gain_outside:
  "(origin \<noteq> end_val
      \<and> (origin < end_val \<and> value < origin \<or> end_val < origin \<and> origin < value)
      \<longrightarrow> color_for_gain value origin end_val = Inr BLUE \<and> BLUE = (0, 0, 255))
   \<and> (origin \<noteq> end_val
      \<and> (origin < end_val \<and> end_val < value \<or> end_val < origin \<and> value < end_val)
      \<longrightarrow> color_for_gain value origin end_val = Inr RED \<and> RED = (255, 0, 0))
   \<and> color_for_gain (-40) 0 (-30) = Inr RED
   \<and> color_for_gain 5 0 (-30) = Inr BLUE
   \<and> (\<exists>r g. color_for_gain (-15) 0 (-30) = Inr (r, g, 0)
        \<and> (r = 127 \<or> r = 128) \<and> (g = 127 \<or> g = 128))"
proof -
  have "color_for_gain (-15) 0 (-30) = Inr (127, 127, 0)"
    by (simp add: color_for_gain_def py_truediv_def clamp_def py_int_def)
  then show ?thesis
    by (auto simp add: color_for_gain_def BLUE_def RED_def)
qed

theorem color_for_gain_outside_witness:
  "color_for_gain (-1) 0 (2 / 5) = Inr (0, 0, 255)
   \<and> color_for_gain 5 0 (-30) = Inr (0, 0, 255)
   \<and> color_for_gain 1 0 (2 / 5) = Inr (255, 0, 0)
   \<and> color_for_gain (-40) 0 (-30) = Inr (255, 0, 0)"
proof -
  have b: "BLUE = (0, 0, 255)" "RED = (255, 0, 0)"
    by (simp_all add: BLUE_def RED_def)
  have "color_for_gain (-1) 0 (2 / 5) = Inr BLUE"
    using color_for_gain_outside [of 0 "2 / 5" "-1"] by simp
  moreover have "color_for_gain 5 0 (-30) = Inr BLUE"
    using color_for_gain_outside [of 0 "-30" 5] by simp
  moreover have "color_for_gain 1 0 (2 / 5) = Inr RED"
    using color_for_gain_outside [of 0 "2 / 5" 1] by simp
  moreover have "color_for_gain (-40) 0 (-30) = Inr RED"
    using color_for_gain_outside [of 0 "-30" "-40"] by simp
  ultimately show ?thesis unfolding b by simp
qed

text \<open>
  Claim C7. \<open>color_for_gain\<close> returns a color on every triple \<open>(value, origin, end)\<close>
  and never raises: with \<open>origin = end\<close> it returns the end color red, so the division
  by \<open>end - origin\<close> is reached only with a non-zero divisor, and every channel of the
  returned triple is an integer from 0 to 255.
\<close>

theorem color_for_gain_safe:
  "(\<exists>r g b. color_for_gain value origin end_val = Inr (r, g, b)
      \<and> 0 \<le> r \<and> r \<le> 255 \<and> 0 \<le> g \<and> g \<le> 255 \<and> 0 \<le> b \<and> b \<le> 255)
   \<and> color_for_gain value origin origin = Inr RED
   \<and> color_for_gain value origin end_val \<noteq> Inl ZeroDivisionError"
proof -
  obtain r g b where c: "color_for_gain value origin end_val = Inr (r, g, b)"
    and rng: "0 \<le> r \<and> r \<le> 255 \<and> 0 \<le> g \<and> g \<le> 255 \<and> 0 \<le> b \<and> b \<le> 255"
    using color_for_gain_total [of "value" origin end_val] by blast
  have "color_for_gain value origin origin = Inr RED"
    by (simp add: color_for_gain_def)
  with c rng show ?thesis by simp
qed

section \<open>The gain gradient in double arithmetic\<close>

text \<open>
  Rounding to the nearest double is monotone, is odd, keeps 0, 1 and 255, and maps no
  number of magnitude \<open>2 ^ - 1074\<close> or more to zero; this is what the gradient needs.
\<close>

lemma ilog2_bounds: "0 < n \<Longrightarrow> 2 ^ ilog2 n \<le> n \<and> n < 2 * 2 ^ ilog2 n"
proof (induction n rule: ilog2.induct)
  case (1 n)
  show ?case
  proof (cases "n < 2")
    case True
    with 1(2) have "n = 1" by simp
    then show ?thesis by (simp add: ilog2.simps)
  next
    case False
    then have pos: "0 < n div 2" by simp
    have IH: "2 ^ ilog2 (n div 2) \<le> n div 2 \<and> n div 2 < 2 * 2 ^ ilog2 (n div 2)"
      using 1(1) [OF False pos] .
    have eq: "ilog2 n = Suc (ilog2 (n div 2))"
      using False by (subst ilog2.simps) simp
    from IH show ?thesis unfolding eq by simp linarith
  qed
qed



lemma pow2_le: "a \<le> b \<Longrightarrow> (2::real) powi a \<le> 2 powi b"
  by (rule power_int_increasing) simp_all

lemma pow2_less_D:
  assumes "(2::real) powi a < 2 powi b"
  shows "a < b"
proof (rule ccontr)
  assume "\<not> a < b"
  then have "b \<le> a" by simp
  then have "(2::real) powi b \<le> 2 powi a" by (rule pow2_le)
  with assms show False by simp
qed

lemma pow2_Suc: "(2::real) powi (k + 1) = 2 * 2 powi k"
  using power_int_add_1 [of "2::real" k] by simp

lemma exponent_bounds:
  assumes "x \<noteq> 0"
  shows "2 powi exponent x \<le> \<bar>x\<bar> \<and> \<bar>x\<bar> < 2 powi (exponent x + 1)"
proof (cases "1 \<le> \<bar>x\<bar>")
  case True
  define n where "n = nat \<lfloor>\<bar>x\<bar>\<rfloor>"
  define i where "i = ilog2 n"
  from True have fl: "1 \<le> \<lfloor>\<bar>x\<bar>\<rfloor>" by (simp add: le_floor_iff)
  then have npos: "0 < n" by (simp add: n_def)
  have rn: "real n = of_int \<lfloor>\<bar>x\<bar>\<rfloor>" using fl by (simp add: n_def)
  have lo: "real n \<le> \<bar>x\<bar>" unfolding rn by (rule of_int_floor_le)
  have hi: "\<bar>x\<bar> < real n + 1" unfolding rn by linarith
  have e: "exponent x = int i" using True by (simp add: exponent_def i_def n_def)
  from ilog2_bounds [OF npos] have b: "2 ^ i \<le> n" "n + 1 \<le> 2 * 2 ^ i"
    by (simp_all add: i_def)
  from b(1) have "real (2 ^ i) \<le> real n" by (rule of_nat_mono)
  then have b1: "(2::real) ^ i \<le> real n" by simp
  from b(2) have "real (n + 1) \<le> real (2 * 2 ^ i)" by (rule of_nat_mono)
  then have b2: "real n + 1 \<le> 2 * 2 ^ i" by simp
  have "(2::real) powi exponent x = 2 ^ i" by (simp add: e)
  moreover have "(2::real) powi (exponent x + 1) = 2 * 2 ^ i" by (simp add: pow2_Suc e)
  ultimately show ?thesis using b1 b2 lo hi by linarith
next
  case False
  define r where "r = 1 / \<bar>x\<bar>"
  define n where "n = nat (\<lceil>r\<rceil> - 1)"
  define i where "i = ilog2 n"
  from False assms have ax: "0 < \<bar>x\<bar>" "\<bar>x\<bar> < 1" by simp_all
  then have r1: "1 < r" by (simp add: r_def)
  then have "1 < \<lceil>r\<rceil>" by (simp add: less_ceiling_iff)
  then have c: "1 \<le> \<lceil>r\<rceil> - 1" by simp
  then have npos: "0 < n" by (simp add: n_def)
  have rn: "real n = of_int \<lceil>r\<rceil> - 1" using c by (simp add: n_def)
  have lo: "real n < r" unfolding rn by linarith
  have hi: "r \<le> real n + 1" unfolding rn by (simp add: le_of_int_ceiling)
  have e: "exponent x = - int (Suc i)"
    using False by (simp add: exponent_def i_def n_def r_def)
  from ilog2_bounds [OF npos] have b: "2 ^ i \<le> n" "n + 1 \<le> 2 * 2 ^ i"
    by (simp_all add: i_def)
  from b(1) have "real (2 ^ i) \<le> real n" by (rule of_nat_mono)
  then have b1: "(2::real) ^ i \<le> real n" by simp
  from b(2) have "real (n + 1) \<le> real (2 * 2 ^ i)" by (rule of_nat_mono)
  then have b2: "real n + 1 \<le> 2 * 2 ^ i" by simp
  have "(2::real) powi (- int (Suc i)) = inverse (2 powi int (Suc i))"
    by (rule power_int_minus)
  also have "\<dots> = inverse (2 ^ Suc i)" by (simp only: power_int_of_nat)
  finally have p1: "(2::real) powi exponent x = 1 / (2 * 2 ^ i)"
    unfolding e by (simp add: divide_simps)
  have e1: "exponent x + 1 = - int i" by (simp add: e)
  have "(2::real) powi (- int i) = inverse (2 powi int i)"
    by (rule power_int_minus)
  also have "\<dots> = inverse (2 ^ i)" by (simp only: power_int_of_nat)
  finally have p2: "(2::real) powi (exponent x + 1) = 1 / 2 ^ i"
    unfolding e1 by (simp add: divide_simps)
  have "r \<le> 2 * 2 ^ i" using hi b2 by linarith
  then have "1 \<le> (2 * 2 ^ i) * \<bar>x\<bar>" using ax by (simp add: r_def field_simps)
  then have g1: "1 / (2 * 2 ^ i) \<le> \<bar>x\<bar>" by (simp add: field_simps)
  have "2 ^ i < r" using lo b1 by linarith
  then have "2 ^ i * \<bar>x\<bar> < 1" using ax by (simp add: r_def field_simps)
  then have g2: "\<bar>x\<bar> < 1 / 2 ^ i" by (simp add: field_simps)
  show ?thesis unfolding p1 p2 using g1 g2 by simp
qed

lemma exponent_mono:
  assumes "x \<noteq> 0" and "\<bar>x\<bar> \<le> \<bar>y\<bar>"
  shows "exponent x \<le> exponent y"
proof -
  from assms have "y \<noteq> 0" by auto
  have "(2::real) powi exponent x \<le> \<bar>x\<bar>" using exponent_bounds [OF assms(1)] by simp
  moreover have "\<bar>y\<bar> < 2 powi (exponent y + 1)" using exponent_bounds [OF \<open>y \<noteq> 0\<close>] by simp
  ultimately have "(2::real) powi exponent x < 2 powi (exponent y + 1)" using assms(2) by linarith
  then have "exponent x < exponent y + 1" by (rule pow2_less_D)
  then show ?thesis by simp
qed

lemma round_half_even_of_int: "round_half_even (of_int n) = n"
  by (simp add: round_half_even_def)

lemma round_half_even_bounds:
  "\<lfloor>y\<rfloor> \<le> round_half_even y \<and> round_half_even y \<le> \<lfloor>y\<rfloor> + 1"
  by (simp add: round_half_even_def Let_def)

lemma round_half_even_mono:
  assumes "a \<le> b"
  shows "round_half_even a \<le> round_half_even b"
proof (cases "\<lfloor>a\<rfloor> < \<lfloor>b\<rfloor>")
  case True
  then show ?thesis
    using round_half_even_bounds [of a] round_half_even_bounds [of b] by linarith
next
  case False
  with floor_mono [OF assms] have eq: "\<lfloor>a\<rfloor> = \<lfloor>b\<rfloor>" by simp
  with assms show ?thesis by (simp add: round_half_even_def Let_def)
qed

lemma round_half_even_minus: "round_half_even (- y) = - round_half_even y"
proof (cases "y = of_int \<lfloor>y\<rfloor>")
  case True
  then obtain n where y: "y = of_int n" ..
  have "round_half_even (- y) = round_half_even (of_int (- n))" by (simp add: y)
  also have "\<dots> = - n" by (rule round_half_even_of_int)
  finally show ?thesis by (simp add: y round_half_even_of_int)
next
  case False
  then have fl: "\<lfloor>- y\<rfloor> = - \<lfloor>y\<rfloor> - 1" by (simp add: floor_minus ceiling_altdef)
  show ?thesis
    unfolding round_half_even_def Let_def fl by auto
qed

lemma quantum_minus: "quantum (- x) = quantum x"
  by (simp add: quantum_def exponent_def)

lemma to_double_minus: "to_double (- x) = - to_double x"
  by (simp add: to_double_def quantum_minus round_half_even_minus)

lemma round_to_le:
  assumes "x \<le> of_int m * 2 powi e"
  shows "of_int (round_half_even (x / 2 powi e)) * 2 powi e \<le> of_int m * (2::real) powi e"
proof -
  have p: "(0::real) < 2 powi e" by simp
  from assms have "x / 2 powi e \<le> of_int m" using p by (simp add: pos_divide_le_eq)
  then have "round_half_even (x / 2 powi e) \<le> round_half_even (of_int m)"
    by (rule round_half_even_mono)
  then have "round_half_even (x / 2 powi e) \<le> m" by (simp add: round_half_even_of_int)
  then have "(of_int (round_half_even (x / 2 powi e)) :: real) \<le> of_int m" by simp
  then show ?thesis using p by (simp add: mult_right_mono)
qed

lemma round_to_ge:
  assumes "of_int m * 2 powi e \<le> x"
  shows "of_int m * (2::real) powi e \<le> of_int (round_half_even (x / 2 powi e)) * 2 powi e"
proof -
  have p: "(0::real) < 2 powi e" by simp
  from assms have "of_int m \<le> x / 2 powi e" using p by (simp add: pos_le_divide_eq)
  then have "round_half_even (of_int m) \<le> round_half_even (x / 2 powi e)"
    by (rule round_half_even_mono)
  then have "m \<le> round_half_even (x / 2 powi e)" by (simp add: round_half_even_of_int)
  then have "(of_int m :: real) \<le> of_int (round_half_even (x / 2 powi e))" by simp
  then show ?thesis using p by (simp add: mult_right_mono)
qed


lemmas double_eval = to_double_def quantum_def exponent_def round_half_even_def ilog2.simps

lemma quantum_lower: "- 1074 \<le> quantum x"
  by (simp add: quantum_def)

lemma to_double_zero: "to_double 0 = 0"
  by (simp add: to_double_def round_half_even_def)

lemma to_double_one: "to_double 1 = 1"
  by (simp add: double_eval)

lemma to_double_nonneg:
  assumes "0 \<le> x"
  shows "0 \<le> to_double x"
proof -
  from assms have "of_int 0 * 2 powi quantum x \<le> x" by simp
  then have "of_int 0 * (2::real) powi quantum x
      \<le> of_int (round_half_even (x / 2 powi quantum x)) * 2 powi quantum x"
    by (rule round_to_ge)
  then show ?thesis by (simp add: to_double_def)
qed

lemma to_double_mono_pos:
  assumes "0 < x" and "x \<le> y"
  shows "to_double x \<le> to_double y"
proof -
  from assms have ne: "x \<noteq> 0" "y \<noteq> 0" and ab: "\<bar>x\<bar> = x" "\<bar>y\<bar> = y" by simp_all
  from assms have "\<bar>x\<bar> \<le> \<bar>y\<bar>" by simp
  with ne(1) have ex: "exponent x \<le> exponent y" by (rule exponent_mono)
  show ?thesis
  proof (cases "quantum x = quantum y")
    case True
    have p: "(0::real) < 2 powi quantum y" by simp
    from assms(2) have "x / 2 powi quantum y \<le> y / 2 powi quantum y"
      using p by (simp add: divide_right_mono)
    then have "round_half_even (x / 2 powi quantum y) \<le> round_half_even (y / 2 powi quantum y)"
      by (rule round_half_even_mono)
    then have "(of_int (round_half_even (x / 2 powi quantum y)) :: real)
        \<le> of_int (round_half_even (y / 2 powi quantum y))" by simp
    then show ?thesis
      unfolding to_double_def True using p by (simp add: mult_right_mono)
  next
    case False
    with ex have lt: "quantum x < quantum y"
      by (simp add: quantum_def max_def split: if_splits)
    have qy: "quantum y = exponent y - 52"
      using lt quantum_lower [of x] by (simp add: quantum_def max_def split: if_splits)
    have "exponent x - 52 \<le> quantum x" by (simp add: quantum_def)
    with lt qy have kx: "exponent x + 1 \<le> exponent y" by simp
    define B where "B = (2::real) powi exponent y"
    have "x < 2 powi (exponent x + 1)" using exponent_bounds [OF ne(1)] ab by simp
    moreover have "(2::real) powi (exponent x + 1) \<le> B" unfolding B_def using kx by (rule pow2_le)
    ultimately have xB: "x \<le> B" by simp
    have By: "B \<le> y" unfolding B_def using exponent_bounds [OF ne(2)] ab by simp
    have "exponent y = 52 + quantum y" by (simp add: qy)
    then have "B = 2 powi 52 * 2 powi quantum y"
      unfolding B_def by (simp add: power_int_add)
    then have B1: "B = of_int (2 ^ 52) * 2 powi quantum y" by simp
    have d: "0 \<le> exponent y - quantum x" using lt qy by simp
    have "exponent y = (exponent y - quantum x) + quantum x" by simp
    then have "B = 2 powi (exponent y - quantum x) * 2 powi quantum x"
      unfolding B_def by (metis power_int_add zero_neq_numeral)
    also have "(2::real) powi (exponent y - quantum x) = 2 ^ nat (exponent y - quantum x)"
      using d by (rule power_int_nonneg_exp)
    finally have B2: "B = of_int (2 ^ nat (exponent y - quantum x)) * 2 powi quantum x" by simp
    have "to_double x \<le> B"
      unfolding to_double_def using xB unfolding B2 by (rule round_to_le)
    moreover have "B \<le> to_double y"
      unfolding to_double_def using By unfolding B1 by (rule round_to_ge)
    ultimately show ?thesis by simp
  qed
qed

lemma to_double_mono:
  assumes "x \<le> y"
  shows "to_double x \<le> to_double y"
proof -
  consider (pos) "0 < x" | (mixed) "x \<le> 0" "0 \<le> y" | (neg) "y < 0" using assms by linarith
  then show ?thesis
  proof cases
    case pos
    then show ?thesis using assms by (rule to_double_mono_pos)
  next
    case mixed
    from mixed(1) have "0 \<le> to_double (- x)" by (intro to_double_nonneg) simp
    then have "to_double x \<le> 0" by (simp add: to_double_minus)
    moreover have "0 \<le> to_double y" using mixed(2) by (rule to_double_nonneg)
    ultimately show ?thesis by simp
  next
    case neg
    then have "0 < - y" "- y \<le> - x" using assms by simp_all
    then have "to_double (- y) \<le> to_double (- x)" by (rule to_double_mono_pos)
    then show ?thesis by (simp add: to_double_minus)
  qed
qed

lemma to_double_multiple: "\<exists>m. to_double x = of_int m * 2 powi (- 1074)"
proof -
  have d: "0 \<le> quantum x + 1074" using quantum_lower [of x] by simp
  have "quantum x = (quantum x + 1074) + (- 1074)" by simp
  then have "(2::real) powi quantum x = 2 powi (quantum x + 1074) * 2 powi (- 1074)"
    by (metis power_int_add zero_neq_numeral)
  also have "(2::real) powi (quantum x + 1074) = 2 ^ nat (quantum x + 1074)"
    using d by (rule power_int_nonneg_exp)
  finally have "to_double x =
      of_int (round_half_even (x / 2 powi quantum x) * 2 ^ nat (quantum x + 1074)) * 2 powi (- 1074)"
    by (simp add: to_double_def)
  then show ?thesis ..
qed

lemma to_double_pos:
  assumes "2 powi (- 1074) \<le> x"
  shows "0 < to_double x"
proof -
  have t: "(0::real) < 2 powi (- 1074)" by (rule zero_less_power_int) simp
  with assms have x: "0 < x" by linarith
  then have ne: "x \<noteq> 0" and ab: "\<bar>x\<bar> = x" by simp_all
  have "(2::real) powi quantum x \<le> x"
  proof (cases "quantum x = - 1074")
    case True
    then show ?thesis using assms by simp
  next
    case False
    then have "quantum x = exponent x - 52" by (simp add: quantum_def max_def split: if_splits)
    then have "(2::real) powi quantum x \<le> 2 powi exponent x" by (simp add: pow2_le)
    also have "\<dots> \<le> x" using exponent_bounds [OF ne] ab by simp
    finally show ?thesis .
  qed
  then have "of_int 1 * 2 powi quantum x \<le> x" by simp
  then have "of_int 1 * (2::real) powi quantum x
      \<le> of_int (round_half_even (x / 2 powi quantum x)) * 2 powi quantum x"
    by (rule round_to_ge)
  then have "(2::real) powi quantum x \<le> to_double x" by (simp add: to_double_def)
  moreover have "(0::real) < 2 powi quantum x" by (rule zero_less_power_int) simp
  ultimately show ?thesis by linarith
qed

lemma float_sub_distinct:
  assumes "to_double a = a" and "to_double b = b" and "a \<noteq> b"
  shows "float_sub b a \<noteq> 0"
proof -
  define t where "t = (2::real) powi (- 1074)"
  have t: "0 < t" unfolding t_def by (rule zero_less_power_int) simp
  obtain ma where "to_double a = of_int ma * t" unfolding t_def using to_double_multiple by blast
  with assms(1) have a: "a = of_int ma * t" by simp
  obtain mb where "to_double b = of_int mb * t" unfolding t_def using to_double_multiple by blast
  with assms(2) have b: "b = of_int mb * t" by simp
  from assms(3) a b have "ma \<noteq> mb" by auto
  then consider (up) "ma + 1 \<le> mb" | (down) "mb + 1 \<le> ma" by linarith
  then show ?thesis
  proof cases
    case up
    then have "(of_int ma :: real) + 1 \<le> of_int mb" by linarith
    then have "(of_int ma + 1) * t \<le> of_int mb * t" using t by (simp only: mult_le_cancel_right_pos)
    then have "t \<le> b - a" by (simp add: a b algebra_simps)
    then have "0 < to_double (b - a)" unfolding t_def by (rule to_double_pos)
    then show ?thesis by (simp add: float_sub_def)
  next
    case down
    then have "(of_int mb :: real) + 1 \<le> of_int ma" by linarith
    then have "(of_int mb + 1) * t \<le> of_int ma * t" using t by (simp only: mult_le_cancel_right_pos)
    then have "t \<le> a - b" by (simp add: a b algebra_simps)
    then have "0 < to_double (a - b)" unfolding t_def by (rule to_double_pos)
    moreover have "to_double (b - a) = - to_double (a - b)"
      using to_double_minus [of "a - b"] by simp
    ultimately show ?thesis by (simp add: float_sub_def)
  qed
qed


lemma to_double_255: "to_double 255 = 255"
  by (simp add: double_eval)

lemma ratio_double_in_unit:
  assumes "to_double origin = origin" and "to_double end_val = end_val"
    and "origin \<noteq> end_val"
    and "min origin end_val \<le> value" and "value \<le> max origin end_val"
  shows "\<exists>ratio. float_truediv (float_sub value origin) (float_sub end_val origin) = Inr ratio
           \<and> 0 \<le> ratio \<and> ratio \<le> 1"
proof -
  define d where "d = float_sub end_val origin"
  define n where "n = float_sub value origin"
  have d0: "d \<noteq> 0" unfolding d_def using assms(1,2,3) by (rule float_sub_distinct)
  have q: "0 \<le> n / d \<and> n / d \<le> 1"
  proof (cases "origin < end_val")
    case True
    with assms(4,5) have "0 \<le> value - origin" "value - origin \<le> end_val - origin" by simp_all
    then have "to_double 0 \<le> to_double (value - origin)"
      "to_double (value - origin) \<le> to_double (end_val - origin)"
      by (simp_all only: to_double_mono)
    then have n: "0 \<le> n" "n \<le> d" by (simp_all add: n_def d_def float_sub_def to_double_zero)
    with d0 have "0 < d" by linarith
    with n show ?thesis by (simp add: divide_simps)
  next
    case False
    with assms(3) have "end_val < origin" by simp
    with assms(4,5) have "value - origin \<le> 0" "end_val - origin \<le> value - origin" by simp_all
    then have "to_double (value - origin) \<le> to_double 0"
      "to_double (end_val - origin) \<le> to_double (value - origin)"
      by (simp_all only: to_double_mono)
    then have n: "n \<le> 0" "d \<le> n" by (simp_all add: n_def d_def float_sub_def to_double_zero)
    with d0 have "d < 0" by linarith
    with n show ?thesis by (simp add: divide_simps)
  qed
  from q have "to_double 0 \<le> to_double (n / d)" "to_double (n / d) \<le> to_double 1"
    by (simp_all only: to_double_mono)
  then have "0 \<le> to_double (n / d) \<and> to_double (n / d) \<le> 1"
    by (simp add: to_double_zero to_double_one)
  moreover have "float_truediv n d = Inr (to_double (n / d))"
    using d0 by (simp add: float_truediv_def)
  ultimately show ?thesis unfolding n_def d_def by blast
qed

lemma color_for_gain_double_inside:
  assumes "origin \<noteq> end_val"
    and "min origin end_val \<le> value" and "value \<le> max origin end_val"
    and "float_truediv (float_sub value origin) (float_sub end_val origin) = Inr ratio"
    and "0 \<le> ratio" and "ratio \<le> 1"
  shows "color_for_gain_double value origin end_val =
           Inr (py_int (float_mul 255 ratio), py_int (float_mul 255 (float_sub 1 ratio)), 0)"
proof (cases "origin < end_val")
  case True
  with assms(2,3) have "\<not> value < origin" "\<not> value > end_val" by simp_all
  with True assms(1,4,5,6) show ?thesis
    by (simp add: color_for_gain_double_def clamp_def Let_def)
next
  case False
  with assms(1) have lt: "end_val < origin" by simp
  with assms(2,3) have "\<not> value < end_val" "\<not> value > origin" by simp_all
  with False assms(1,4,5,6) show ?thesis
    by (simp add: color_for_gain_double_def clamp_def Let_def)
qed

text \<open>
  Where \<open>color_for_gain\<close> returns without interpolating, and at the two end points
  of the range, rounding changes nothing: on doubles the exact and the rounded
  computation return the same color.
\<close>

lemma color_for_gain_double_agrees:
  assumes dbl: "to_double origin = origin" "to_double end_val = end_val"
    and out: "origin = end_val \<or> value \<le> min origin end_val \<or> max origin end_val \<le> value"
  shows "color_for_gain_double value origin end_val = color_for_gain value origin end_val"
proof -
  have "origin = end_val \<or> value = origin \<or> value = end_val
      \<or> value < min origin end_val \<or> max origin end_val < value"
    using out by arith
  then consider (degenerate) "origin = end_val"
    | (outside) "origin \<noteq> end_val" "value < min origin end_val \<or> max origin end_val < value"
    | (at_origin) "origin \<noteq> end_val" "value = origin"
    | (at_end) "origin \<noteq> end_val" "value = end_val"
    by blast
  then show ?thesis
  proof cases
    case degenerate
    then show ?thesis by (simp add: color_for_gain_double_def color_for_gain_def)
  next
    case outside
    then show ?thesis by (auto simp add: color_for_gain_double_def color_for_gain_def)
  next
    case at_origin
    have d0: "float_sub end_val origin \<noteq> 0" using dbl at_origin(1) by (rule float_sub_distinct)
    have q: "float_truediv (float_sub origin origin) (float_sub end_val origin) = Inr 0"
      using d0 by (simp add: float_truediv_def float_sub_def to_double_zero)
    have "color_for_gain_double origin origin end_val =
        Inr (py_int (float_mul 255 0), py_int (float_mul 255 (float_sub 1 0)), 0)"
      using color_for_gain_double_inside [of origin end_val origin 0] at_origin(1) q by simp
    then have l: "color_for_gain_double origin origin end_val = Inr (0, 255, 0)"
      by (simp add: float_mul_def float_sub_def to_double_zero to_double_one to_double_255
          py_int_def)
    have "color_for_gain origin origin end_val =
        Inr (py_int (255 * ((origin - origin) / (end_val - origin))),
             py_int (255 * (1 - (origin - origin) / (end_val - origin))), 0)"
      using at_origin(1) by (intro color_for_gain_inside) simp_all
    then have "color_for_gain origin origin end_val = Inr (0, 255, 0)"
      by (simp add: py_int_def)
    with l show ?thesis by (simp add: at_origin(2))
  next
    case at_end
    have d0: "float_sub end_val origin \<noteq> 0" using dbl at_end(1) by (rule float_sub_distinct)
    have "float_truediv (float_sub end_val origin) (float_sub end_val origin) = Inr (to_double 1)"
      using d0 by (simp add: float_truediv_def)
    then have q: "float_truediv (float_sub end_val origin) (float_sub end_val origin) = Inr 1"
      by (simp only: to_double_one)
    have "color_for_gain_double end_val origin end_val =
        Inr (py_int (float_mul 255 1), py_int (float_mul 255 (float_sub 1 1)), 0)"
      using color_for_gain_double_inside [of origin end_val end_val 1] at_end(1) q by simp
    then have l: "color_for_gain_double end_val origin end_val = Inr (255, 0, 0)"
      by (simp add: float_mul_def float_sub_def to_double_zero to_double_255 py_int_def)
    from at_end(1) have "(end_val - origin) / (end_val - origin) = 1" by simp
    moreover have "color_for_gain end_val origin end_val =
        Inr (py_int (255 * ((end_val - origin) / (end_val - origin))),
             py_int (255 * (1 - (end_val - origin) / (end_val - origin))), 0)"
      using at_end(1) by (intro color_for_gain_inside) simp_all
    ultimately have "color_for_gain end_val origin end_val = Inr (255, 0, 0)"
      by (simp add: py_int_def)
    with l show ?thesis by (simp add: at_end(2))
  qed
qed

text \<open>
  The roundings of the gain \<open>- 24.0\<close> on the reference pair \<open>(0.0, - 30.0)\<close>, and of
  the gain \<open>0.1\<close> on the pair \<open>(0.0, 0.40)\<close>; the doubles \<open>0.1\<close> and \<open>0.40\<close> are
  \<open>3602879701896397 / 2 ^ 55\<close> and \<open>3602879701896397 / 2 ^ 53\<close>.
\<close>

lemma to_double_examples:
  "to_double (- 24) = - 24"
  "to_double (- 30) = - 30"
  "to_double (4 / 5) = 3602879701896397 / 4503599627370496"
  "to_double (918734323983581235 / 4503599627370496) = 204"
  "to_double (900719925474099 / 4503599627370496) = 900719925474099 / 4503599627370496"
  "to_double (229683580995895245 / 4503599627370496) = 3588805953060863 / 70368744177664"
  "to_double (3602879701896397 / 36028797018963968) = 3602879701896397 / 36028797018963968"
  "to_double (3602879701896397 / 9007199254740992) = 3602879701896397 / 9007199254740992"
  "to_double (1 / 4) = 1 / 4"
  "to_double (3 / 4) = 3 / 4"
  "to_double (255 / 4) = 255 / 4"
  "to_double (765 / 4) = 765 / 4"
  by (simp_all add: double_eval)

text \<open>
  Claim C4. For doubles \<open>origin \<noteq> end\<close> whose difference is finite, and every value
  strictly between the smaller and the larger of the two, \<open>color_for_gain\<close> returns
  \<open>(int(255 * ratio), int(255 * (1.0 - ratio)), 0)\<close> with
  \<open>ratio = (value - origin) / (end - origin)\<close>, each operation being the one of
  Python's floats: the division does not raise, the ratio lies between 0 and 1, so
  that the clamp leaves it alone, and the forward and the reversed branch return the
  same triple. That ratio is 0 at \<open>origin\<close> and 1 at \<open>end\<close> in either order of the
  two, and the blue channel of the result is 0.
\<close>

theorem color_for_gain_double_interpolates:
  assumes "is_double origin" and "is_double end_val" and "origin \<noteq> end_val"
    and "\<bar>end_val - origin\<bar> < 2 ^ 1023"
    and "min origin end_val < value" and "value < max origin end_val"
  shows "(\<exists>ratio. float_truediv (float_sub value origin) (float_sub end_val origin) = Inr ratio
            \<and> 0 \<le> ratio \<and> ratio \<le> 1
            \<and> color_for_gain_double value origin end_val =
                Inr (py_int (float_mul 255 ratio),
                     py_int (float_mul 255 (float_sub 1 ratio)), 0))
         \<and> float_truediv (float_sub origin origin) (float_sub end_val origin) = Inr 0
         \<and> float_truediv (float_sub end_val origin) (float_sub end_val origin) = Inr 1"
proof -
  from assms(1,2) have dbl: "to_double origin = origin" "to_double end_val = end_val"
    by (simp_all add: is_double_def)
  from assms(5,6) have inside: "min origin end_val \<le> value" "value \<le> max origin end_val"
    by simp_all
  obtain ratio where r: "float_truediv (float_sub value origin) (float_sub end_val origin) = Inr ratio"
      "0 \<le> ratio" "ratio \<le> 1"
    using ratio_double_in_unit [OF dbl assms(3) inside] by blast
  have c: "color_for_gain_double value origin end_val =
      Inr (py_int (float_mul 255 ratio), py_int (float_mul 255 (float_sub 1 ratio)), 0)"
    using assms(3) inside r by (rule color_for_gain_double_inside)
  have d0: "float_sub end_val origin \<noteq> 0" using dbl assms(3) by (rule float_sub_distinct)
  have a: "float_truediv (float_sub origin origin) (float_sub end_val origin) = Inr 0"
    using d0 by (simp add: float_truediv_def float_sub_def to_double_zero)
  have "float_truediv (float_sub end_val origin) (float_sub end_val origin) = Inr (to_double 1)"
    using d0 by (simp add: float_truediv_def)
  then have b: "float_truediv (float_sub end_val origin) (float_sub end_val origin) = Inr 1"
    by (simp only: to_double_one)
  from r c a b show ?thesis by blast
qed

theorem color_for_gain_double_interpolates_witness:
  "is_double 0 \<and> is_double (- 30) \<and> (0::real) \<noteq> - 30 \<and> \<bar>- 30 - 0\<bar> < (2::real) ^ 1023
   \<and> min 0 (- 30) < (- 24::real) \<and> (- 24::real) < max 0 (- 30)
   \<and> color_for_gain_double (- 24) 0 (- 30) = Inr (204, 50, 0)
   \<and> is_double (3602879701896397 / 9007199254740992)
   \<and> color_for_gain_double (3602879701896397 / 36028797018963968) 0
         (3602879701896397 / 9007199254740992) = Inr (63, 191, 0)"
proof -
  have h: "is_double 0" "is_double (- 30)"
    by (simp_all add: is_double_def to_double_zero to_double_examples)
  have g: "(0::real) \<noteq> - 30" "\<bar>- 30 - 0\<bar> < (2::real) ^ 1023"
    "min 0 (- 30) < (- 24::real)" "(- 24::real) < max 0 (- 30)"
    by simp_all
  obtain ratio where r: "float_truediv (float_sub (- 24) 0) (float_sub (- 30) 0) = Inr ratio"
    and c: "color_for_gain_double (- 24) 0 (- 30) =
      Inr (py_int (float_mul 255 ratio), py_int (float_mul 255 (float_sub 1 ratio)), 0)"
    using color_for_gain_double_interpolates [OF h g] by blast
  have "float_truediv (float_sub (- 24) 0) (float_sub (- 30) 0) =
      Inr (3602879701896397 / 4503599627370496)"
    by (simp add: float_truediv_def float_sub_def to_double_examples)
  with r have ratio: "ratio = 3602879701896397 / 4503599627370496" by simp
  have first: "color_for_gain_double (- 24) 0 (- 30) = Inr (204, 50, 0)"
    unfolding c ratio by (simp add: float_mul_def float_sub_def to_double_examples py_int_def)
  define v :: real where "v = 3602879701896397 / 36028797018963968"
  define e :: real where "e = 3602879701896397 / 9007199254740992"
  have he: "is_double e"
    by (simp add: e_def is_double_def to_double_examples)
  have ge: "0 \<noteq> e" "\<bar>e - 0\<bar> < 2 ^ 1023" "min 0 e < v" "v < max 0 e"
    by (simp_all add: e_def v_def)
  obtain ratio' where r': "float_truediv (float_sub v 0) (float_sub e 0) = Inr ratio'"
    and c': "color_for_gain_double v 0 e =
      Inr (py_int (float_mul 255 ratio'), py_int (float_mul 255 (float_sub 1 ratio')), 0)"
    using color_for_gain_double_interpolates [OF h(1) he ge] by blast
  have "float_truediv (float_sub v 0) (float_sub e 0) = Inr (1 / 4)"
    by (simp add: float_truediv_def float_sub_def v_def e_def to_double_examples)
  with r' have ratio': "ratio' = 1 / 4" by simp
  have second: "color_for_gain_double v 0 e = Inr (63, 191, 0)"
    unfolding c' ratio' by (simp add: float_mul_def float_sub_def to_double_examples py_int_def)
  from h g first he second show ?thesis unfolding v_def e_def by blast
qed

section \<open>Effects of the statements\<close>

lemma then_do_None [simp]: "then_do (None, w) f = f w"
  by (simp add: then_do_def)

lemma then_do_Some [simp]: "then_do (Some e, w) f = (Some e, w)"
  by (simp add: then_do_def)

lemma set_led_colors_effect:
  "\<exists>r w'. set_led_colors w lid c = (r, w')
     \<and> requests w' = (lid, c) # requests w
     \<and> monitored_params w' = monitored_params w \<and> vm w' = vm w"
  by (simp add: set_led_colors_def Let_def split: option.splits)

lemma set_color_state:
  "\<exists>w'. set_color w lid (Some v) None None = (None, w')
     \<and> requests w' = (lid, colorForBoolean (py_bool v)) # requests w
     \<and> monitored_params w' = monitored_params w \<and> vm w' = vm w"
proof -
  obtain r w1 where 1: "set_led_colors w lid (colorForBoolean (py_bool v)) = (r, w1)"
    and 2: "requests w1 = (lid, colorForBoolean (py_bool v)) # requests w"
      "monitored_params w1 = monitored_params w" "vm w1 = vm w"
    using set_led_colors_effect by blast
  show ?thesis
  proof (cases r)
    case None
    with 1 2 show ?thesis by (simp add: set_color_def colorForBoolean_def)
  next
    case (Some e)
    with 1 2 show ?thesis by (simp add: set_color_def colorForBoolean_def py_print_def)
  qed
qed

lemma set_color_gain:
  assumes "length r = 2"
  shows "\<exists>w' c. color_for_gain (py_float v) (r ! 0) (r ! 1) = Inr c
     \<and> set_color w lid None (Some v) (Some r) = (None, w')
     \<and> requests w' = (lid, c) # requests w
     \<and> monitored_params w' = monitored_params w \<and> vm w' = vm w"
proof -
  obtain c where c: "color_for_gain (py_float v) (r ! 0) (r ! 1) = Inr c"
    using color_for_gain_total [of "py_float v" "r ! 0" "r ! 1"] by blast
  obtain res w1 where 1: "set_led_colors w lid c = (res, w1)"
    and 2: "requests w1 = (lid, c) # requests w"
      "monitored_params w1 = monitored_params w" "vm w1 = vm w"
    using set_led_colors_effect by blast
  show ?thesis
  proof (cases res)
    case None
    with 1 2 c assms show ?thesis by (simp add: set_color_def)
  next
    case (Some e)
    with 1 2 c assms show ?thesis by (simp add: set_color_def py_print_def)
  qed
qed

lemma toggle_strip_gain:
  assumes known: "map_of (monitored_params w) vk = Some p"
    and gain: "is_gain p" "rng p = Some [origin, end_val]"
    and writable: "vm w (s_idx p, p_name p) = Some old"
    and nv: "nv = (if py_float (current_val p) = end_val then origin else end_val)"
  shows "\<exists>w' c. toggle_strip w vk = (None, w')
     \<and> vm w' = (vm w)((s_idx p, p_name p) \<mapsto> PFloat nv)
     \<and> color_for_gain nv origin end_val = Inr c
     \<and> requests w' = (led_id p, c) # requests w
     \<and> monitored_params w' = AList.update vk (p\<lparr>current_val := PFloat nv\<rparr>) (monitored_params w)"
proof -
  define w1 where "w1 = w\<lparr>vm := (vm w)((s_idx p, p_name p) \<mapsto> PFloat nv)\<rparr>"
  obtain w2 c where c: "color_for_gain nv origin end_val = Inr c"
    and sc: "set_color w1 (led_id p) None (Some (PFloat nv)) (Some [origin, end_val]) = (None, w2)"
    and w2: "requests w2 = (led_id p, c) # requests w1"
      "monitored_params w2 = monitored_params w1" "vm w2 = vm w1"
    using set_color_gain [of "[origin, end_val]" "PFloat nv" w1 "led_id p"] by auto
  have "toggle_strip w vk =
      (None, w2\<lparr>printed := ToggleGainLine vk (p_name p) (PFloat nv) # printed w2,
                monitored_params :=
                  AList.update vk (p\<lparr>current_val := PFloat nv\<rparr>) (monitored_params w2)\<rparr>)"
    using known gain writable sc
    by (simp add: toggle_strip_def vm_setattr_def Let_def w1_def [symmetric] nv [symmetric]
        py_print_def store_param_def)
  with c w2 show ?thesis by (simp add: w1_def)
qed

lemma toggle_strip_bool:
  assumes known: "map_of (monitored_params w) vk = Some p"
    and bool: "kind_of p = Boolean"
    and writable: "vm w (s_idx p, p_name p) = Some old"
    and nv: "nv = (\<not> py_bool (current_val p))"
  shows "\<exists>w'. toggle_strip w vk = (None, w')
     \<and> vm w' = (vm w)((s_idx p, p_name p) \<mapsto> PBool nv)
     \<and> requests w' = (led_id p, colorForBoolean nv) # requests w
     \<and> monitored_params w' = AList.update vk (p\<lparr>current_val := PBool nv\<rparr>) (monitored_params w)"
proof -
  define w1 where "w1 = w\<lparr>vm := (vm w)((s_idx p, p_name p) \<mapsto> PBool nv)\<rparr>"
  obtain w2 where sc: "set_color w1 (led_id p) (Some (PBool nv)) None None = (None, w2)"
    and w2: "requests w2 = (led_id p, colorForBoolean nv) # requests w1"
      "monitored_params w2 = monitored_params w1" "vm w2 = vm w1"
    using set_color_state [of w1 "led_id p" "PBool nv"] by auto
  from bool have nogain: "\<not> (is_gain p \<and> rng p \<noteq> None \<and> length (the (rng p)) = 2)"
    by (simp add: kind_of_def split: if_splits)
  have "toggle_strip w vk =
      (let new_val = PBool (\<not> py_bool (current_val p))
       in then_do (vm_setattr w (s_idx p, p_name p) new_val)
            (\<lambda>w1. then_do (set_color w1 (led_id p) (Some new_val) None None)
            (\<lambda>w2. then_do (py_print (ToggleBoolLine vk (p_name p) new_val) w2)
            (\<lambda>w3. store_param vk (p\<lparr>current_val := new_val\<rparr>) w3))))"
    by (simp only: toggle_strip_def known option.case nogain if_False)
  then have "toggle_strip w vk =
      (None, w2\<lparr>printed := ToggleBoolLine vk (p_name p) (PBool nv) # printed w2,
                monitored_params :=
                  AList.update vk (p\<lparr>current_val := PBool nv\<rparr>) (monitored_params w2)\<rparr>)"
    using writable sc
    by (simp add: vm_setattr_def Let_def w1_def [symmetric] nv [symmetric]
        py_print_def store_param_def)
  with w2 show ?thesis by (simp add: w1_def)
qed

lemma toggle_strip_write_fails:
  assumes "map_of (monitored_params w) vk = Some p"
    and "vm w (s_idx p, p_name p) = None"
  shows "toggle_strip w vk = (Some (VmError (s_idx p, p_name p)), w)"
  using assms by (simp add: toggle_strip_def vm_setattr_def Let_def)

lemma map_of_update_same:
  "map_of (AList.update k v al) k = Some v"
  by (simp add: update_conv)

section \<open>Toggling\<close>

text \<open>
  Claim C3. For a continuous-gain binding with reference pair \<open>(origin, end)\<close>, a toggle
  writes \<open>origin\<close> when the stored value equals \<open>end\<close> and \<open>end\<close> in every other
  case, and stores what it wrote; so a stored value that differs from \<open>end\<close> (any third
  value, or \<open>origin\<close>) is moved to \<open>end\<close>, and from \<open>end\<close> one toggle goes to
  \<open>origin\<close> and the next back to \<open>end\<close>. The mixer parameter is taken to accept
  the write.
\<close>

theorem toggle_strip_gain_flips:
  assumes known: "map_of (monitored_params w) vk = Some p"
    and gain: "is_gain p" "rng p = Some [origin, end_val]"
    and writable: "vm w (s_idx p, p_name p) = Some old"
  shows "\<exists>w1 w2.
      toggle_strip w vk = (None, w1) \<and> toggle_strip w1 vk = (None, w2)
    \<and> vm w1 (s_idx p, p_name p) =
        Some (PFloat (if py_float (current_val p) = end_val then origin else end_val))
    \<and> map_option current_val (map_of (monitored_params w1) vk) =
        Some (PFloat (if py_float (current_val p) = end_val then origin else end_val))
    \<and> (py_float (current_val p) \<noteq> end_val \<longrightarrow>
         vm w1 (s_idx p, p_name p) = Some (PFloat end_val))
    \<and> (py_float (current_val p) = end_val \<longrightarrow>
         vm w1 (s_idx p, p_name p) = Some (PFloat origin)
       \<and> vm w2 (s_idx p, p_name p) = Some (PFloat end_val)
       \<and> map_option current_val (map_of (monitored_params w2) vk) = Some (PFloat end_val))"
proof -
  define nv1 where "nv1 = (if py_float (current_val p) = end_val then origin else end_val)"
  define p1 where "p1 = p\<lparr>current_val := PFloat nv1\<rparr>"
  define nv2 where "nv2 = (if py_float (current_val p1) = end_val then origin else end_val)"
  obtain w1 where t1: "toggle_strip w vk = (None, w1)"
    and vm1: "vm w1 = (vm w)((s_idx p, p_name p) \<mapsto> PFloat nv1)"
    and mp1: "monitored_params w1 = AList.update vk p1 (monitored_params w)"
    using toggle_strip_gain [OF known gain writable nv1_def] unfolding p1_def by blast
  have known1: "map_of (monitored_params w1) vk = Some p1"
    by (simp add: mp1 map_of_update_same)
  have gain1: "is_gain p1" "rng p1 = Some [origin, end_val]"
    using gain by (simp_all add: p1_def)
  have writable1: "vm w1 (s_idx p1, p_name p1) = Some (PFloat nv1)"
    by (simp add: vm1 p1_def)
  obtain w2 where t2: "toggle_strip w1 vk = (None, w2)"
    and vm2: "vm w2 = (vm w1)((s_idx p1, p_name p1) \<mapsto> PFloat nv2)"
    and mp2: "monitored_params w2 =
        AList.update vk (p1\<lparr>current_val := PFloat nv2\<rparr>) (monitored_params w1)"
    using toggle_strip_gain [OF known1 gain1 writable1 nv2_def] by blast
  have again: "py_float (current_val p) = end_val \<Longrightarrow> nv2 = end_val"
    by (simp add: nv2_def p1_def nv1_def)
  have "vm w1 (s_idx p, p_name p) = Some (PFloat nv1)"
    by (simp add: vm1)
  moreover have "map_option current_val (map_of (monitored_params w1) vk) = Some (PFloat nv1)"
    by (simp add: known1 p1_def)
  moreover have "py_float (current_val p) = end_val \<Longrightarrow>
      vm w2 (s_idx p, p_name p) = Some (PFloat end_val)"
    using again by (simp add: vm2 p1_def)
  moreover have "py_float (current_val p) = end_val \<Longrightarrow>
      map_option current_val (map_of (monitored_params w2) vk) = Some (PFloat end_val)"
    using again by (simp add: mp2 map_of_update_same)
  ultimately show ?thesis
    using t1 t2 unfolding nv1_def by auto
qed

theorem toggle_strip_gain_flips_witness:
  "map_of (monitored_params example_world) 104 = Some gain_entry
   \<and> is_gain gain_entry \<and> rng gain_entry = Some [0, - 30]
   \<and> vm example_world (s_idx gain_entry, p_name gain_entry) = Some (PFloat (- 12))
   \<and> (\<exists>w1 w2. toggle_strip example_world 104 = (None, w1) \<and> toggle_strip w1 104 = (None, w2)
        \<and> vm w1 (5, ''gain'') = Some (PFloat (- 30)))"
proof -
  have h1: "map_of (monitored_params example_world) 104 = Some gain_entry"
    by (simp add: example_world_def)
  have h2: "is_gain gain_entry" and h3: "rng gain_entry = Some [0, - 30]"
    by (simp_all add: gain_entry_def)
  have h4: "vm example_world (s_idx gain_entry, p_name gain_entry) = Some (PFloat (- 12))"
    by (simp add: example_world_def gain_entry_def)
  have loc: "(s_idx gain_entry, p_name gain_entry) = (5, ''gain'')"
    and cur: "py_float (current_val gain_entry) \<noteq> - 30"
    by (simp_all add: gain_entry_def)
  from toggle_strip_gain_flips [OF h1 h2 h3 h4] cur
  have "\<exists>w1 w2. toggle_strip example_world 104 = (None, w1) \<and> toggle_strip w1 104 = (None, w2)
        \<and> vm w1 (5, ''gain'') = Some (PFloat (- 30))"
    unfolding loc by auto
  with h1 h2 h3 h4 show ?thesis by blast
qed

text \<open>
  Claim C9. A toggle with a key that \<open>monitored_params\<close> does not hold raises nothing
  and changes nothing: no write to the mixer, no color request, no change to any entry.
\<close>

theorem toggle_strip_unknown_noop:
  assumes "vk \<notin> fst ` set (monitored_params w)"
  shows "toggle_strip w vk = (None, w)
     \<and> fst (toggle_strip w vk) = None
     \<and> vm (snd (toggle_strip w vk)) = vm w
     \<and> requests (snd (toggle_strip w vk)) = requests w
     \<and> monitored_params (snd (toggle_strip w vk)) = monitored_params w"
proof -
  from assms have "map_of (monitored_params w) vk = None"
    by (simp add: map_of_eq_None_iff)
  then show ?thesis by (simp add: toggle_strip_def)
qed

theorem toggle_strip_unknown_noop_witness:
  "65 \<notin> fst ` set (monitored_params example_world)
   \<and> toggle_strip example_world 65 = (None, example_world)"
proof -
  have h: "65 \<notin> fst ` set (monitored_params example_world)"
    by (simp add: example_world_def)
  from toggle_strip_unknown_noop [OF h] h show ?thesis by blast
qed

text \<open>
  Claim C8. For a Boolean binding whose stored value is the value of the mixer
  parameter, two toggles in a row with nothing in between write the negation and then
  the negation of the negation of the stored value: the parameter has its first truth
  value again (the very value, when that was a Python bool), and the color last
  requested is the one \<open>set_color\<close> requests for the first value.
\<close>

theorem toggle_strip_bool_twice:
  assumes known: "map_of (monitored_params w) vk = Some p"
    and bool: "kind_of p = Boolean"
    and synced: "vm w (s_idx p, p_name p) = Some (current_val p)"
  shows "\<exists>w1 w2 w0.
      toggle_strip w vk = (None, w1) \<and> toggle_strip w1 vk = (None, w2)
    \<and> vm w1 (s_idx p, p_name p) = Some (PBool (\<not> py_bool (current_val p)))
    \<and> vm w2 (s_idx p, p_name p) = Some (PBool (\<not> \<not> py_bool (current_val p)))
    \<and> py_bool (the (vm w2 (s_idx p, p_name p))) = py_bool (the (vm w (s_idx p, p_name p)))
    \<and> (\<forall>b. current_val p = PBool b \<longrightarrow> vm w2 = vm w)
    \<and> map_option current_val (map_of (monitored_params w2) vk)
        = Some (PBool (py_bool (current_val p)))
    \<and> set_color w (led_id p) (Some (current_val p)) None None = (None, w0)
    \<and> last_pushed w2 (led_id p) = last_pushed w0 (led_id p)
    \<and> last_pushed w2 (led_id p) = Some (colorForBoolean (py_bool (current_val p)))"
proof -
  define b0 where "b0 = py_bool (current_val p)"
  define p1 where "p1 = p\<lparr>current_val := PBool (\<not> b0)\<rparr>"
  obtain w1 where t1: "toggle_strip w vk = (None, w1)"
    and vm1: "vm w1 = (vm w)((s_idx p, p_name p) \<mapsto> PBool (\<not> b0))"
    and mp1: "monitored_params w1 = AList.update vk p1 (monitored_params w)"
    using toggle_strip_bool [OF known bool synced, of "\<not> b0"] unfolding p1_def b0_def by blast
  have known1: "map_of (monitored_params w1) vk = Some p1"
    by (simp add: mp1 map_of_update_same)
  have bool1: "kind_of p1 = Boolean"
    using bool by (simp add: p1_def kind_of_def)
  have synced1: "vm w1 (s_idx p1, p_name p1) = Some (PBool (\<not> b0))"
    by (simp add: vm1 p1_def)
  have nv2: "b0 = (\<not> py_bool (current_val p1))"
    by (simp add: p1_def)
  obtain w2 where t2: "toggle_strip w1 vk = (None, w2)"
    and vm2: "vm w2 = (vm w1)((s_idx p1, p_name p1) \<mapsto> PBool b0)"
    and rq2: "requests w2 = (led_id p1, colorForBoolean b0) # requests w1"
    and mp2: "monitored_params w2 =
        AList.update vk (p1\<lparr>current_val := PBool b0\<rparr>) (monitored_params w1)"
    using toggle_strip_bool [OF known1 bool1 synced1 nv2] by blast
  obtain w0 where s0: "set_color w (led_id p) (Some (current_val p)) None None = (None, w0)"
    and rq0: "requests w0 = (led_id p, colorForBoolean b0) # requests w"
    using set_color_state [of w "led_id p" "current_val p"] unfolding b0_def by blast
  have v1: "vm w1 (s_idx p, p_name p) = Some (PBool (\<not> b0))"
    by (simp add: vm1)
  have v2: "vm w2 (s_idx p, p_name p) = Some (PBool b0)"
    by (simp add: vm2 p1_def)
  have restored: "py_bool (the (vm w2 (s_idx p, p_name p))) = py_bool (the (vm w (s_idx p, p_name p)))"
    by (simp add: v2 synced b0_def)
  have exact: "\<forall>b. current_val p = PBool b \<longrightarrow> vm w2 = vm w"
  proof (intro allI impI)
    fix b assume "current_val p = PBool b"
    then have "vm w (s_idx p, p_name p) = Some (PBool b0)"
      using synced by (simp add: b0_def)
    then show "vm w2 = vm w"
      by (auto simp add: vm2 vm1 p1_def)
  qed
  have stored: "map_option current_val (map_of (monitored_params w2) vk) = Some (PBool b0)"
    by (simp add: mp2 map_of_update_same)
  have lp2: "last_pushed w2 (led_id p) = Some (colorForBoolean b0)"
    by (simp add: last_pushed_def rq2 p1_def)
  have lp0: "last_pushed w0 (led_id p) = Some (colorForBoolean b0)"
    by (simp add: last_pushed_def rq0)
  from t1 t2 v1 v2 restored exact stored s0 lp2 lp0 show ?thesis
    unfolding b0_def by simp
qed

theorem toggle_strip_bool_twice_witness:
  "map_of (monitored_params example_world) 97 = Some mute_entry
   \<and> kind_of mute_entry = Boolean
   \<and> vm example_world (s_idx mute_entry, p_name mute_entry) = Some (current_val mute_entry)
   \<and> (\<exists>w1 w2. toggle_strip example_world 97 = (None, w1) \<and> toggle_strip w1 97 = (None, w2)
        \<and> vm w1 (0, ''B1'') = Some (PBool False)
        \<and> vm w2 = vm example_world
        \<and> last_pushed w2 116 = Some (0, 255, 0))"
proof -
  have h1: "map_of (monitored_params example_world) 97 = Some mute_entry"
    by (simp add: example_world_def)
  have h2: "kind_of mute_entry = Boolean"
    by (simp add: kind_of_def mute_entry_def)
  have h3: "vm example_world (s_idx mute_entry, p_name mute_entry) = Some (current_val mute_entry)"
    by (simp add: example_world_def mute_entry_def)
  have e: "s_idx mute_entry = 0" "p_name mute_entry = ''B1''" "led_id mute_entry = 116"
    "current_val mute_entry = PBool True"
    by (simp_all add: mute_entry_def)
  have c: "colorForBoolean True = (0, 255, 0)"
    by (simp add: colorForBoolean_def LED_ON_COLOR_def)
  from toggle_strip_bool_twice [OF h1 h2 h3]
  have "\<exists>w1 w2. toggle_strip example_world 97 = (None, w1) \<and> toggle_strip w1 97 = (None, w2)
        \<and> vm w1 (0, ''B1'') = Some (PBool False)
        \<and> vm w2 = vm example_world
        \<and> last_pushed w2 116 = Some (0, 255, 0)"
    unfolding e py_bool.simps c by auto
  with h1 h2 h3 show ?thesis by blast
qed

section \<open>Reconciliation\<close>

lemma set_color_effect:
  "\<exists>w' c. set_color w lid state gain gain_range = (None, w')
     \<and> requests w' = (lid, c) # requests w
     \<and> monitored_params w' = monitored_params w \<and> vm w' = vm w
     \<and> (device w lid = None \<longrightarrow> printed w' = LedErrorLine lid (SdkError lid) # printed w)"
proof -
  define sel where "sel =
    (if gain \<noteq> None \<and> gain_range \<noteq> None \<and> length (the gain_range) = 2
     then (let origin = the gain_range ! 0; end_val = the gain_range ! 1
           in color_for_gain (py_float (the gain)) origin end_val)
     else if state \<noteq> None
     then Inr (if py_bool (the state) then LED_ON_COLOR else LED_OFF_COLOR)
     else Inr LED_OFF_COLOR)"
  have "\<exists>c. sel = Inr c"
  proof (cases "gain \<noteq> None \<and> gain_range \<noteq> None \<and> length (the gain_range) = 2")
    case True
    then have "sel = color_for_gain (py_float (the gain)) (the gain_range ! 0) (the gain_range ! 1)"
      by (simp add: sel_def Let_def)
    then show ?thesis
      using color_for_gain_total
        [of "py_float (the gain)" "the gain_range ! 0" "the gain_range ! 1"]
      by auto
  next
    case False
    then show ?thesis by (auto simp add: sel_def LED_ON_COLOR_def LED_OFF_COLOR_def)
  qed
  then obtain c where c: "sel = Inr c" ..
  have sc: "set_color w lid state gain gain_range =
      (case set_led_colors w lid c of
         (Some e, w') \<Rightarrow> py_print (LedErrorLine lid e) w'
       | (None, w') \<Rightarrow> (None, w'))"
    unfolding set_color_def sel_def [symmetric] c by simp
  obtain r g b where rgb: "c = (r, g, b)" by (cases c)
  show ?thesis
  proof (cases "device w lid")
    case None
    then show ?thesis
      unfolding sc by (simp add: set_led_colors_def Let_def py_print_def rgb)
  next
    case (Some old)
    then show ?thesis
      unfolding sc by (simp add: set_led_colors_def Let_def rgb)
  qed
qed

lemma ColorMapper_gain:
  assumes "is_gain p \<and> rng p \<noteq> None \<and> length (the (rng p)) = 2"
  shows "ColorMapper (p\<lparr>current_val := v\<rparr>) =
           color_for_gain (py_float v) (the (rng p) ! 0) (the (rng p) ! 1)"
proof -
  from assms have "kind_of (p\<lparr>current_val := v\<rparr>) = ContinuousGain"
    unfolding kind_of_def by simp
  then show ?thesis by (simp add: ColorMapper_def)
qed

lemma ColorMapper_bool:
  assumes "\<not> (is_gain p \<and> rng p \<noteq> None \<and> length (the (rng p)) = 2)"
  shows "ColorMapper (p\<lparr>current_val := v\<rparr>) = Inr (colorForBoolean (py_bool v))"
proof -
  from assms have "kind_of (p\<lparr>current_val := v\<rparr>) = Boolean"
    unfolding kind_of_def by simp
  then show ?thesis by (simp add: ColorMapper_def)
qed

text \<open>The color request that all three methods make for an entry and a value.\<close>

lemma push_color:
  "\<exists>w' c.
     (if is_gain p \<and> rng p \<noteq> None \<and> length (the (rng p)) = 2
      then set_color w (led_id p) None (Some v) (rng p)
      else set_color w (led_id p) (Some v) None None) = (None, w')
     \<and> ColorMapper (p\<lparr>current_val := v\<rparr>) = Inr c
     \<and> requests w' = (led_id p, c) # requests w
     \<and> monitored_params w' = monitored_params w \<and> vm w' = vm w"
proof (cases "is_gain p \<and> rng p \<noteq> None \<and> length (the (rng p)) = 2")
  case True
  then obtain r where r: "rng p = Some r" "length r = 2" by auto
  obtain w' c where "color_for_gain (py_float v) (r ! 0) (r ! 1) = Inr c"
    "set_color w (led_id p) None (Some v) (Some r) = (None, w')"
    "requests w' = (led_id p, c) # requests w"
    "monitored_params w' = monitored_params w" "vm w' = vm w"
    using set_color_gain [OF r(2), of v w "led_id p"] by blast
  moreover have "ColorMapper (p\<lparr>current_val := v\<rparr>) =
      color_for_gain (py_float v) (r ! 0) (r ! 1)"
    using ColorMapper_gain [OF True, of v] r by simp
  ultimately show ?thesis
    using True r by (simp only: if_True) simp
next
  case False
  obtain w' where "set_color w (led_id p) (Some v) None None = (None, w')"
    "requests w' = (led_id p, colorForBoolean (py_bool v)) # requests w"
    "monitored_params w' = monitored_params w" "vm w' = vm w"
    using set_color_state [of w "led_id p" v] by blast
  then show ?thesis
    using False ColorMapper_bool [OF False, of v] by (simp only: if_False) simp
qed

lemma check_updates_loop_raises:
  assumes "vm w (s_idx p, p_name p) = None"
  shows "check_updates_loop ((vk, p) # rest) w = (Some (VmError (s_idx p, p_name p)), w)"
  using assms by (simp add: vm_getattr_def)

lemma check_updates_loop_same:
  assumes "vm w (s_idx p, p_name p) = Some cur" and "py_eq cur (current_val p)"
  shows "check_updates_loop ((vk, p) # rest) w = check_updates_loop rest w"
  using assms by (simp add: vm_getattr_def)

lemma check_updates_loop_changed:
  assumes rd: "vm w (s_idx p, p_name p) = Some cur" and ne: "\<not> py_eq cur (current_val p)"
  shows "\<exists>w3 c. (\<forall>rest. check_updates_loop ((vk, p) # rest) w = check_updates_loop rest w3)
     \<and> ColorMapper (p\<lparr>current_val := cur\<rparr>) = Inr c
     \<and> requests w3 = (led_id p, c) # requests w
     \<and> monitored_params w3 = AList.update vk (p\<lparr>current_val := cur\<rparr>) (monitored_params w)
     \<and> vm w3 = vm w"
proof (cases "is_gain p \<and> rng p \<noteq> None \<and> length (the (rng p)) = 2")
  case True
  obtain w' c where sc: "set_color w (led_id p) None (Some cur) (rng p) = (None, w')"
    and c: "ColorMapper (p\<lparr>current_val := cur\<rparr>) = Inr c"
    and w': "requests w' = (led_id p, c) # requests w"
      "monitored_params w' = monitored_params w" "vm w' = vm w"
    using push_color [of p w cur] unfolding if_P [OF True] by blast
  define w3 where "w3 =
    w'\<lparr>printed := ExtGainLine vk (p_name p) cur # printed w',
       monitored_params :=
         AList.update vk (p\<lparr>current_val := cur\<rparr>) (monitored_params w')\<rparr>"
  have "check_updates_loop ((vk, p) # rest) w =
      then_do
        (then_do (set_color w (led_id p) None (Some cur) (rng p))
           (\<lambda>w1. py_print (ExtGainLine vk (p_name p) cur) w1))
        (\<lambda>w2. then_do (store_param vk (p\<lparr>current_val := cur\<rparr>) w2)
           (\<lambda>w3. check_updates_loop rest w3))" for rest
    using rd ne by (simp only: check_updates_loop.simps if_P [OF True]) (simp add: vm_getattr_def)
  then have step: "\<forall>rest. check_updates_loop ((vk, p) # rest) w = check_updates_loop rest w3"
    by (simp add: sc py_print_def store_param_def w3_def)
  have "requests w3 = (led_id p, c) # requests w"
    and "monitored_params w3 =
      AList.update vk (p\<lparr>current_val := cur\<rparr>) (monitored_params w)"
    and "vm w3 = vm w"
    using w' by (simp_all add: w3_def)
  with step c show ?thesis by blast
next
  case False
  obtain w' c where sc: "set_color w (led_id p) (Some cur) None None = (None, w')"
    and c: "ColorMapper (p\<lparr>current_val := cur\<rparr>) = Inr c"
    and w': "requests w' = (led_id p, c) # requests w"
      "monitored_params w' = monitored_params w" "vm w' = vm w"
    using push_color [of p w cur] unfolding if_not_P [OF False] by blast
  define w3 where "w3 =
    w'\<lparr>printed := ExtToggleLine vk (p_name p) cur # printed w',
       monitored_params :=
         AList.update vk (p\<lparr>current_val := cur\<rparr>) (monitored_params w')\<rparr>"
  have "check_updates_loop ((vk, p) # rest) w =
      then_do
        (then_do (set_color w (led_id p) (Some cur) None None)
           (\<lambda>w1. py_print (ExtToggleLine vk (p_name p) cur) w1))
        (\<lambda>w2. then_do (store_param vk (p\<lparr>current_val := cur\<rparr>) w2)
           (\<lambda>w3. check_updates_loop rest w3))" for rest
    using rd ne
    by (simp only: check_updates_loop.simps if_not_P [OF False]) (simp add: vm_getattr_def)
  then have step: "\<forall>rest. check_updates_loop ((vk, p) # rest) w = check_updates_loop rest w3"
    by (simp add: sc py_print_def store_param_def w3_def)
  have "requests w3 = (led_id p, c) # requests w"
    and "monitored_params w3 =
      AList.update vk (p\<lparr>current_val := cur\<rparr>) (monitored_params w)"
    and "vm w3 = vm w"
    using w' by (simp_all add: w3_def)
  with step c show ?thesis by blast
qed

lemma check_updates_loop_vm:
  "vm (snd (check_updates_loop ps w)) = vm w"
proof (induction ps arbitrary: w)
  case Nil
  show ?case by simp
next
  case (Cons kp rest)
  obtain vk p where kp: "kp = (vk, p)" by (cases kp)
  show ?case
  proof (cases "vm w (s_idx p, p_name p)")
    case None
    then show ?thesis unfolding kp by (simp add: vm_getattr_def)
  next
    case (Some cur)
    show ?thesis
    proof (cases "py_eq cur (current_val p)")
      case True
      have "check_updates_loop (kp # rest) w = check_updates_loop rest w"
        unfolding kp using Some True by (rule check_updates_loop_same)
      then show ?thesis by (simp only: Cons.IH)
    next
      case False
      obtain w3 where "check_updates_loop (kp # rest) w = check_updates_loop rest w3"
        and "vm w3 = vm w"
        using check_updates_loop_changed [OF Some False] unfolding kp by blast
      then show ?thesis by (simp only: Cons.IH)
    qed
  qed
qed

lemma check_updates_loop_append:
  "check_updates_loop (xs @ ys) w =
     then_do (check_updates_loop xs w) (\<lambda>w'. check_updates_loop ys w')"
proof (induction xs arbitrary: w)
  case Nil
  show ?case by simp
next
  case (Cons kp rest)
  obtain vk p where kp: "kp = (vk, p)" by (cases kp)
  show ?case
  proof (cases "vm w (s_idx p, p_name p)")
    case None
    then show ?thesis unfolding kp by (simp add: vm_getattr_def)
  next
    case (Some cur)
    show ?thesis
    proof (cases "py_eq cur (current_val p)")
      case True
      have "check_updates_loop (kp # rest) w = check_updates_loop rest w"
        and "check_updates_loop ((kp # rest) @ ys) w = check_updates_loop (rest @ ys) w"
        unfolding kp append_Cons using Some True by (rule check_updates_loop_same)+
      then show ?thesis by (simp only: Cons.IH)
    next
      case False
      obtain w3 where "check_updates_loop (kp # rest) w = check_updates_loop rest w3"
        and "check_updates_loop ((kp # rest) @ ys) w = check_updates_loop (rest @ ys) w3"
        using check_updates_loop_changed [OF Some False] unfolding kp append_Cons by blast
      then show ?thesis by (simp only: Cons.IH)
    qed
  qed
qed

lemma check_updates_loop_read_fails:
  assumes a: "check_updates_loop ps1 w = (None, w1)" and b: "vm w (s_idx p, p_name p) = None"
  shows "check_updates_loop (ps1 @ (vk, p) # ps2) w = (Some (VmError (s_idx p, p_name p)), w1)"
proof -
  have "vm (snd (check_updates_loop ps1 w)) = vm w"
    by (rule check_updates_loop_vm)
  then have "vm w1 = vm w" by (simp only: a snd_conv)
  with b have "vm w1 (s_idx p, p_name p) = None" by simp
  then have r: "check_updates_loop ((vk, p) # ps2) w1 = (Some (VmError (s_idx p, p_name p)), w1)"
    by (rule check_updates_loop_raises)
  have "check_updates_loop (ps1 @ (vk, p) # ps2) w =
      then_do (check_updates_loop ps1 w) (\<lambda>w'. check_updates_loop ((vk, p) # ps2) w')"
    by (rule check_updates_loop_append)
  also have "\<dots> = check_updates_loop ((vk, p) # ps2) w1"
    unfolding a by (rule then_do_None)
  finally show ?thesis unfolding r .
qed


lemma set_color_catches:
  "\<exists>w'. set_color w lid state gain gain_range = (None, w')
     \<and> (device w lid = None \<longrightarrow> printed w' = LedErrorLine lid (SdkError lid) # printed w)"
proof -
  obtain w' c where "set_color w lid state gain gain_range = (None, w')"
    and "device w lid = None \<longrightarrow> printed w' = LedErrorLine lid (SdkError lid) # printed w"
    using set_color_effect [of w lid state gain gain_range] by metis
  then show ?thesis by (intro exI [of _ w'] conjI)
qed

text \<open>
  Claim C2, as the specification states it: a failure to read or write the mixer
  parameter of one binding is caught and logged, and the other bindings of the pass
  are still processed. The code does otherwise. With the mute parameter missing,
  \<open>check_updates\<close> leaves with the exception of the first binding and the state
  untouched: the gain binding after it keeps its stale value \<open>-12\<close> although the
  mixer holds \<open>-30\<close>, and no color was requested; \<open>toggle_strip\<close> leaves with
  the exception too.
\<close>

theorem mixer_failure_not_caught_counterexample:
  "check_updates broken_world = (Some (VmError (0, ''B1'')), broken_world)
   \<and> vm broken_world (5, ''gain'') = Some (PFloat (- 30))
   \<and> map_option current_val (map_of (monitored_params broken_world) 104) = Some (PFloat (- 12))
   \<and> requests broken_world = []
   \<and> toggle_strip broken_world 97 = (Some (VmError (0, ''B1'')), broken_world)"
proof -
  have mp: "monitored_params broken_world = [(97, mute_entry), (104, gain_entry)]"
    by (simp add: broken_world_def example_world_def)
  have v: "vm broken_world (s_idx mute_entry, p_name mute_entry) = None"
    by (simp add: broken_world_def mute_entry_def)
  have loc: "(s_idx mute_entry, p_name mute_entry) = (0, ''B1'')"
    by (simp add: mute_entry_def)
  have "check_updates broken_world = (Some (VmError (0, ''B1'')), broken_world)"
    unfolding check_updates_def mp using check_updates_loop_raises [OF v] by (simp only: loc)
  moreover have "toggle_strip broken_world 97 = (Some (VmError (0, ''B1'')), broken_world)"
    using toggle_strip_write_fails [of broken_world 97 mute_entry] v
    by (simp add: mp loc)
  moreover have "vm broken_world (5, ''gain'') = Some (PFloat (- 30))"
    by (simp add: broken_world_def)
  moreover have "map_option current_val (map_of (monitored_params broken_world) 104)
      = Some (PFloat (- 12))"
    by (simp add: mp gain_entry_def)
  moreover have "requests broken_world = []"
    by (simp add: broken_world_def example_world_def)
  ultimately show ?thesis by simp
qed

text \<open>
  Claim C2, amended. A failure to read the mixer parameter of a binding is not caught:
  \<open>check_updates\<close> leaves with that exception at that binding, with the state as the
  bindings before it left it, and the binding and all bindings after it are not
  processed. A failure to write in \<open>toggle_strip\<close> leaves the method with the
  exception and the state unchanged. What is caught is a failure of the lighting
  device: \<open>set_color\<close> never raises, and prints a line when the device fails.
\<close>

theorem mixer_failure_propagates:
  "(check_updates_loop ps1 w = (None, w1) \<and> vm w (s_idx p, p_name p) = None
      \<longrightarrow> check_updates_loop (ps1 @ (vk, p) # ps2) w = (Some (VmError (s_idx p, p_name p)), w1))
   \<and> (map_of (monitored_params w) vk = Some p \<and> vm w (s_idx p, p_name p) = None
      \<longrightarrow> toggle_strip w vk = (Some (VmError (s_idx p, p_name p)), w))
   \<and> (\<exists>w'. set_color w lid state gain gain_range = (None, w')
        \<and> (device w lid = None \<longrightarrow> printed w' = LedErrorLine lid (SdkError lid) # printed w))"
proof (intro conjI impI)
  assume "check_updates_loop ps1 w = (None, w1) \<and> vm w (s_idx p, p_name p) = None"
  then have "check_updates_loop ps1 w = (None, w1)" and "vm w (s_idx p, p_name p) = None"
    by (rule conjunct1, rule conjunct2)
  then show "check_updates_loop (ps1 @ (vk, p) # ps2) w
      = (Some (VmError (s_idx p, p_name p)), w1)"
    by (rule check_updates_loop_read_fails)
next
  assume "map_of (monitored_params w) vk = Some p \<and> vm w (s_idx p, p_name p) = None"
  then have "map_of (monitored_params w) vk = Some p" and "vm w (s_idx p, p_name p) = None"
    by (rule conjunct1, rule conjunct2)
  then show "toggle_strip w vk = (Some (VmError (s_idx p, p_name p)), w)"
    by (rule toggle_strip_write_fails)
next
  show "\<exists>w'. set_color w lid state gain gain_range = (None, w')
        \<and> (device w lid = None \<longrightarrow> printed w' = LedErrorLine lid (SdkError lid) # printed w)"
    by (rule set_color_catches)
qed

theorem mixer_failure_propagates_witness:
  "check_updates_loop [] broken_world = (None, broken_world)
   \<and> vm broken_world (s_idx mute_entry, p_name mute_entry) = None
   \<and> map_of (monitored_params broken_world) 97 = Some mute_entry
   \<and> device broken_world 999 = None
   \<and> check_updates_loop ([] @ (97, mute_entry) # [(104, gain_entry)]) broken_world
        = (Some (VmError (s_idx mute_entry, p_name mute_entry)), broken_world)
   \<and> toggle_strip broken_world 97
        = (Some (VmError (s_idx mute_entry, p_name mute_entry)), broken_world)
   \<and> (\<exists>w'. set_color broken_world 999 (Some (PBool True)) None None = (None, w')
        \<and> printed w' = LedErrorLine 999 (SdkError 999) # printed broken_world)"
proof -
  have h1: "check_updates_loop [] broken_world = (None, broken_world)" by simp
  have h2: "vm broken_world (s_idx mute_entry, p_name mute_entry) = None"
    by (simp add: broken_world_def mute_entry_def)
  have h3: "map_of (monitored_params broken_world) 97 = Some mute_entry"
    by (simp add: broken_world_def example_world_def)
  have h4: "device broken_world 999 = None"
    by (simp add: broken_world_def example_world_def)
  note inst = mixer_failure_propagates
    [of "[]" broken_world broken_world mute_entry 97 "[(104, gain_entry)]" 999
      "Some (PBool True)" None None]
  from inst h1 h2
  have c1: "check_updates_loop ([] @ (97, mute_entry) # [(104, gain_entry)]) broken_world
        = (Some (VmError (s_idx mute_entry, p_name mute_entry)), broken_world)"
    by (elim conjE) (erule mp, intro conjI)
  from inst h3 h2
  have c2: "toggle_strip broken_world 97
        = (Some (VmError (s_idx mute_entry, p_name mute_entry)), broken_world)"
    by (elim conjE) (erule mp, intro conjI)
  from inst obtain w' where s: "set_color broken_world 999 (Some (PBool True)) None None = (None, w')"
    and i: "device broken_world 999 = None \<longrightarrow>
        printed w' = LedErrorLine 999 (SdkError 999) # printed broken_world"
    by (elim conjE exE)
  from i h4 have "printed w' = LedErrorLine 999 (SdkError 999) # printed broken_world"
    by (rule mp)
  with s have c3: "\<exists>w'. set_color broken_world 999 (Some (PBool True)) None None = (None, w')
        \<and> printed w' = LedErrorLine 999 (SdkError 999) # printed broken_world"
    by (intro exI [of _ w'] conjI)
  from h1 h2 h3 h4 c1 c2 c3 show ?thesis by (intro conjI)
qed

section \<open>What the operations keep\<close>

lemma kind_of_cases:
  "kind_of p = ContinuousGain \<longleftrightarrow> (is_gain p \<and> rng p \<noteq> None \<and> length (the (rng p)) = 2)"
  unfolding kind_of_def by simp

lemma gain_range_pair:
  assumes "kind_of p = ContinuousGain"
  obtains a b where "is_gain p" and "rng p = Some [a, b]"
proof -
  from assms have g: "is_gain p" and n: "rng p \<noteq> None" and l: "length (the (rng p)) = 2"
    by (simp_all add: kind_of_cases)
  from n obtain r where r: "rng p = Some r" by auto
  with l have "length r = 2" by simp
  then obtain a b where "r = [a, b]"
    by (cases r; cases "tl r") auto
  with g r that show ?thesis by simp
qed

lemma toggle_strip_known:
  assumes known: "map_of (monitored_params w) vk = Some p"
    and writable: "vm w (s_idx p, p_name p) = Some old"
  shows "\<exists>w' v c. toggle_strip w vk = (None, w')
     \<and> vm w' = (vm w)((s_idx p, p_name p) \<mapsto> v)
     \<and> ColorMapper (p\<lparr>current_val := v\<rparr>) = Inr c
     \<and> requests w' = (led_id p, c) # requests w
     \<and> monitored_params w' = AList.update vk (p\<lparr>current_val := v\<rparr>) (monitored_params w)"
proof (cases "kind_of p")
  case Boolean
  define nv where "nv = (\<not> py_bool (current_val p))"
  obtain w' where w': "toggle_strip w vk = (None, w')"
    "vm w' = (vm w)((s_idx p, p_name p) \<mapsto> PBool nv)"
    "requests w' = (led_id p, colorForBoolean nv) # requests w"
    "monitored_params w' = AList.update vk (p\<lparr>current_val := PBool nv\<rparr>) (monitored_params w)"
    using toggle_strip_bool [OF known Boolean writable nv_def] by blast
  from Boolean have "\<not> (is_gain p \<and> rng p \<noteq> None \<and> length (the (rng p)) = 2)"
    using kind_of_cases [of p] by simp
  then have "ColorMapper (p\<lparr>current_val := PBool nv\<rparr>) = Inr (colorForBoolean nv)"
    using ColorMapper_bool [of p "PBool nv"] by simp
  with w' show ?thesis by blast
next
  case ContinuousGain
  then obtain a b where g: "is_gain p" "rng p = Some [a, b]"
    by (rule gain_range_pair)
  define nv where "nv = (if py_float (current_val p) = b then a else b)"
  obtain w' c where w': "toggle_strip w vk = (None, w')"
    "vm w' = (vm w)((s_idx p, p_name p) \<mapsto> PFloat nv)"
    "color_for_gain nv a b = Inr c"
    "requests w' = (led_id p, c) # requests w"
    "monitored_params w' = AList.update vk (p\<lparr>current_val := PFloat nv\<rparr>) (monitored_params w)"
    using toggle_strip_gain [OF known g writable nv_def] by blast
  from ContinuousGain have "is_gain p \<and> rng p \<noteq> None \<and> length (the (rng p)) = 2"
    using kind_of_cases [of p] by blast
  then have "ColorMapper (p\<lparr>current_val := PFloat nv\<rparr>) = color_for_gain nv a b"
    using ColorMapper_gain [of p "PFloat nv"] g by simp
  with w' show ?thesis by (metis)
qed

lemma toggle_strip_outcome:
  "monitored_params (snd (toggle_strip w vk)) = monitored_params w
     \<and> requests (snd (toggle_strip w vk)) = requests w
   \<or> (\<exists>p v c. map_of (monitored_params w) vk = Some p
        \<and> ColorMapper (p\<lparr>current_val := v\<rparr>) = Inr c
        \<and> requests (snd (toggle_strip w vk)) = (led_id p, c) # requests w
        \<and> monitored_params (snd (toggle_strip w vk))
            = AList.update vk (p\<lparr>current_val := v\<rparr>) (monitored_params w))"
proof (cases "map_of (monitored_params w) vk")
  case None
  then have "toggle_strip w vk = (None, w)" by (simp add: toggle_strip_def)
  then show ?thesis by simp
next
  case (Some p)
  show ?thesis
  proof (cases "vm w (s_idx p, p_name p)")
    case None
    with Some have "toggle_strip w vk = (Some (VmError (s_idx p, p_name p)), w)"
      by (rule toggle_strip_write_fails)
    then show ?thesis by simp
  next
    case (Some old)
    obtain w' v c where "toggle_strip w vk = (None, w')"
      "ColorMapper (p\<lparr>current_val := v\<rparr>) = Inr c"
      "requests w' = (led_id p, c) # requests w"
      "monitored_params w' = AList.update vk (p\<lparr>current_val := v\<rparr>) (monitored_params w)"
      using toggle_strip_known [OF \<open>map_of (monitored_params w) vk = Some p\<close> Some] by blast
    then have "\<exists>p v c. map_of (monitored_params w) vk = Some p
        \<and> ColorMapper (p\<lparr>current_val := v\<rparr>) = Inr c
        \<and> requests (snd (toggle_strip w vk)) = (led_id p, c) # requests w
        \<and> monitored_params (snd (toggle_strip w vk))
            = AList.update vk (p\<lparr>current_val := v\<rparr>) (monitored_params w)"
      using \<open>map_of (monitored_params w) vk = Some p\<close>
      by (intro exI [of _ p] exI [of _ v] exI [of _ c]) simp
    then show ?thesis by (rule disjI2)
  qed
qed

lemma static_part_update:
  assumes "map_of al k = Some p"
  shows "map static_part (AList.update k (p\<lparr>current_val := v\<rparr>) al) = map static_part al"
  using assms by (induction al) (auto simp add: static_part_def)

lemma toggle_strip_static:
  "map static_part (monitored_params (snd (toggle_strip w vk)))
     = map static_part (monitored_params w)"
  using toggle_strip_outcome [of w vk] by (auto simp add: static_part_update)

lemma toggle_strip_others:
  assumes "k \<noteq> vk"
  shows "map_of (monitored_params (snd (toggle_strip w vk))) k = map_of (monitored_params w) k"
  using toggle_strip_outcome [of w vk] assms by (auto simp add: update_conv)

lemma static_part_keys: "map fst (map static_part al) = map fst al"
  by (simp add: static_part_def)

lemma static_part_leds:
  "map (\<lambda>s. fst (snd (snd (snd s)))) (map static_part al) = map (\<lambda>kp. led_id (snd kp)) al"
  by (simp add: static_part_def)

lemma static_part_distinct_keys:
  assumes "map static_part al' = map static_part al"
  shows "map fst al' = map fst al"
proof -
  from assms have "map fst (map static_part al') = map fst (map static_part al)"
    by (rule arg_cong)
  then show ?thesis by (simp only: static_part_keys)
qed

lemma well_formed_static:
  assumes "map static_part (monitored_params w') = map static_part (monitored_params w)"
  shows "well_formed w' = well_formed w"
proof -
  have "map fst (monitored_params w') = map fst (monitored_params w)"
    using assms by (rule static_part_distinct_keys)
  moreover have "map (\<lambda>kp. led_id (snd kp)) (monitored_params w')
      = map (\<lambda>kp. led_id (snd kp)) (monitored_params w)"
  proof -
    from assms
    have "map (\<lambda>s. fst (snd (snd (snd s)))) (map static_part (monitored_params w'))
        = map (\<lambda>s. fst (snd (snd (snd s)))) (map static_part (monitored_params w))"
      by (rule arg_cong)
    then show ?thesis by (simp only: static_part_leds)
  qed
  ultimately show ?thesis by (simp add: well_formed_def)
qed

lemma in_sync_step:
  assumes wf: "well_formed w" and sync: "in_sync w"
    and known: "map_of (monitored_params w) vk = Some p"
    and c: "ColorMapper (p\<lparr>current_val := v\<rparr>) = Inr c"
    and rq: "requests w' = (led_id p, c) # requests w"
    and mp: "monitored_params w' = AList.update vk (p\<lparr>current_val := v\<rparr>) (monitored_params w)"
  shows "in_sync w'"
  unfolding in_sync_def
proof (rule ballI)
  fix kq
  assume mem: "kq \<in> set (monitored_params w')"
  obtain k q where kq_eq: "kq = (k, q)" by (cases kq)
  from mem have kq: "(k, q) \<in> set (monitored_params w')" by (simp only: kq_eq)
  from wf have dk: "distinct (map fst (monitored_params w))"
    and dl: "distinct (map (\<lambda>kp. led_id (snd kp)) (monitored_params w))"
    by (simp_all add: well_formed_def)
  from dk have "distinct (map fst (monitored_params w'))"
    unfolding mp by (rule distinct_update)
  with kq have "map_of (monitored_params w') k = Some q" by simp
  then have look: "((map_of (monitored_params w))(vk \<mapsto> p\<lparr>current_val := v\<rparr>)) k = Some q"
    by (simp add: mp update_conv)
  have "map_option Inr (last_pushed w' (led_id q)) = Some (ColorMapper q)"
  proof (cases "k = vk")
    case True
    with look have "q = p\<lparr>current_val := v\<rparr>" by simp
    then show ?thesis by (simp add: last_pushed_def rq c)
  next
    case False
    with look have "map_of (monitored_params w) k = Some q" by simp
    then have in_q: "(k, q) \<in> set (monitored_params w)" by (rule map_of_SomeD)
    from known have in_p: "(vk, p) \<in> set (monitored_params w)" by (rule map_of_SomeD)
    from dl have "inj_on (\<lambda>kp. led_id (snd kp)) (set (monitored_params w))"
      by (simp add: distinct_map)
    then have "\<forall>x \<in> set (monitored_params w). \<forall>y \<in> set (monitored_params w).
        led_id (snd x) = led_id (snd y) \<longrightarrow> x = y"
      by (simp only: inj_on_def)
    then have "led_id (snd (k, q)) = led_id (snd (vk, p)) \<longrightarrow> (k, q) = (vk, p)"
      using in_q in_p by blast
    then have inj: "led_id (snd (k, q)) = led_id (snd (vk, p)) \<Longrightarrow> (k, q) = (vk, p)"
      by simp
    have "led_id q \<noteq> led_id p"
    proof
      assume "led_id q = led_id p"
      then have "(k, q) = (vk, p)" using inj by simp
      with False show False by simp
    qed
    then have "last_pushed w' (led_id q) = last_pushed w (led_id q)"
      by (simp add: last_pushed_def rq)
    moreover from sync in_q
    have "map_option Inr (last_pushed w (led_id q)) = Some (ColorMapper q)"
      unfolding in_sync_def by blast
    ultimately show ?thesis by simp
  qed
  then show "case kq of (vk, p) \<Rightarrow>
      map_option Inr (last_pushed w' (led_id p)) = Some (ColorMapper p)"
    by (simp add: kq_eq)
qed

lemma in_sync_same:
  assumes "requests w' = requests w" and "monitored_params w' = monitored_params w"
  shows "in_sync w' = in_sync w"
  using assms by (simp add: in_sync_def last_pushed_def)

lemma check_updates_loop_inv:
  assumes "distinct (map fst ps)"
    and "\<forall>kq \<in> set ps. map_of (monitored_params w) (fst kq) = Some (snd kq)"
  shows "map static_part (monitored_params (snd (check_updates_loop ps w)))
           = map static_part (monitored_params w)
     \<and> (well_formed w \<and> in_sync w \<longrightarrow> in_sync (snd (check_updates_loop ps w)))"
  using assms
proof (induction ps arbitrary: w)
  case Nil
  show ?case by simp
next
  case (Cons kp rest)
  obtain vk p where kp: "kp = (vk, p)" by (cases kp)
  from Cons.prems(1) have dr: "distinct (map fst rest)" and nk: "vk \<notin> fst ` set rest"
    by (simp_all add: kp)
  from Cons.prems(2) have known: "map_of (monitored_params w) vk = Some p"
    and snap: "\<forall>kq \<in> set rest. map_of (monitored_params w) (fst kq) = Some (snd kq)"
    by (simp_all add: kp)
  show ?case
  proof (cases "vm w (s_idx p, p_name p)")
    case None
    then have "check_updates_loop (kp # rest) w = (Some (VmError (s_idx p, p_name p)), w)"
      unfolding kp by (rule check_updates_loop_raises)
    then show ?thesis by simp
  next
    case (Some cur)
    show ?thesis
    proof (cases "py_eq cur (current_val p)")
      case True
      have eq: "check_updates_loop (kp # rest) w = check_updates_loop rest w"
        unfolding kp using Some True by (rule check_updates_loop_same)
      show ?thesis unfolding eq using dr snap by (rule Cons.IH)
    next
      case False
      obtain w3 c where step: "check_updates_loop (kp # rest) w = check_updates_loop rest w3"
        and c: "ColorMapper (p\<lparr>current_val := cur\<rparr>) = Inr c"
        and rq: "requests w3 = (led_id p, c) # requests w"
        and mp3: "monitored_params w3 =
            AList.update vk (p\<lparr>current_val := cur\<rparr>) (monitored_params w)"
        using check_updates_loop_changed [OF Some False, of vk] unfolding kp by blast
      have st3: "map static_part (monitored_params w3) = map static_part (monitored_params w)"
        unfolding mp3 using known by (rule static_part_update)
      have snap3: "\<forall>kq \<in> set rest. map_of (monitored_params w3) (fst kq) = Some (snd kq)"
      proof
        fix kq
        assume m: "kq \<in> set rest"
        with nk have "fst kq \<noteq> vk" by auto
        then have "map_of (monitored_params w3) (fst kq) = map_of (monitored_params w) (fst kq)"
          by (simp add: mp3 update_conv)
        with snap m show "map_of (monitored_params w3) (fst kq) = Some (snd kq)" by simp
      qed
      have ih: "map static_part (monitored_params (snd (check_updates_loop rest w3)))
           = map static_part (monitored_params w3)
         \<and> (well_formed w3 \<and> in_sync w3 \<longrightarrow> in_sync (snd (check_updates_loop rest w3)))"
        using dr snap3 by (rule Cons.IH)
      have keep: "well_formed w \<and> in_sync w \<longrightarrow> well_formed w3 \<and> in_sync w3"
      proof
        assume a: "well_formed w \<and> in_sync w"
        then have wf: "well_formed w" and sy: "in_sync w" by simp_all
        from wf have "well_formed w3" by (simp only: well_formed_static [OF st3])
        moreover have "in_sync w3" using wf sy known c rq mp3 by (rule in_sync_step)
        ultimately show "well_formed w3 \<and> in_sync w3" ..
      qed
      from ih keep st3 show ?thesis unfolding step by (simp del: check_updates_loop.simps)
    qed
  qed
qed

lemma snapshot_current:
  assumes "distinct (map fst al)"
  shows "\<forall>kq \<in> set al. map_of al (fst kq) = Some (snd kq)"
  using assms by auto

lemma check_updates_inv:
  assumes "distinct (map fst (monitored_params w))"
  shows "map static_part (monitored_params (snd (check_updates w)))
           = map static_part (monitored_params w)
     \<and> (well_formed w \<and> in_sync w \<longrightarrow> in_sync (snd (check_updates w)))"
  unfolding check_updates_def
  using assms snapshot_current [OF assms] by (rule check_updates_loop_inv)

lemma toggle_strip_in_sync:
  assumes wf: "well_formed w" and sy: "in_sync w"
  shows "in_sync (snd (toggle_strip w vk))"
proof -
  from toggle_strip_outcome [of w vk] show ?thesis
  proof
    assume "monitored_params (snd (toggle_strip w vk)) = monitored_params w
      \<and> requests (snd (toggle_strip w vk)) = requests w"
    then have "in_sync (snd (toggle_strip w vk)) = in_sync w"
      by (intro in_sync_same) simp_all
    with sy show ?thesis by simp
  next
    assume "\<exists>p v c. map_of (monitored_params w) vk = Some p
        \<and> ColorMapper (p\<lparr>current_val := v\<rparr>) = Inr c
        \<and> requests (snd (toggle_strip w vk)) = (led_id p, c) # requests w
        \<and> monitored_params (snd (toggle_strip w vk))
            = AList.update vk (p\<lparr>current_val := v\<rparr>) (monitored_params w)"
    then obtain p v c where "map_of (monitored_params w) vk = Some p"
      "ColorMapper (p\<lparr>current_val := v\<rparr>) = Inr c"
      "requests (snd (toggle_strip w vk)) = (led_id p, c) # requests w"
      "monitored_params (snd (toggle_strip w vk))
            = AList.update vk (p\<lparr>current_val := v\<rparr>) (monitored_params w)"
      by blast
    with wf sy show ?thesis by (rule in_sync_step)
  qed
qed

section \<open>Initialisation and operation sequences\<close>

lemma map_of_snoc_new:
  assumes "l \<notin> fst ` set R"
  shows "map_of (R @ [(l, c)]) l = Some c"
proof -
  from assms have "map_of R l = None" by (simp add: map_of_eq_None_iff)
  then show ?thesis by (simp add: map_add_def)
qed

lemma map_of_append_old:
  assumes "map_of R k = Some v"
  shows "map_of (R @ X) k = Some v"
  using assms by (simp add: map_add_def)

lemma initialize_leds_loop_effect:
  "\<exists>w' R. initialize_leds_loop ps w = (None, w')
     \<and> monitored_params w' = monitored_params w \<and> vm w' = vm w
     \<and> requests w' = R @ requests w
     \<and> fst ` set R \<subseteq> (\<lambda>kp. led_id (snd kp)) ` set ps
     \<and> (distinct (map (\<lambda>kp. led_id (snd kp)) ps) \<longrightarrow>
          (\<forall>kq \<in> set ps.
             map_option Inr (map_of R (led_id (snd kq))) = Some (ColorMapper (snd kq))))"
proof (induction ps arbitrary: w)
  case Nil
  show ?case by simp
next
  case (Cons kp rest)
  obtain vk p where kp: "kp = (vk, p)" by (cases kp)
  obtain w1 c where pc:
      "(if is_gain p \<and> rng p \<noteq> None \<and> length (the (rng p)) = 2
        then set_color w (led_id p) None (Some (current_val p)) (rng p)
        else set_color w (led_id p) (Some (current_val p)) None None) = (None, w1)"
    and c0: "ColorMapper (p\<lparr>current_val := current_val p\<rparr>) = Inr c"
    and w1: "requests w1 = (led_id p, c) # requests w"
      "monitored_params w1 = monitored_params w" "vm w1 = vm w"
    using push_color [of p w "current_val p"] by blast
  from c0 have c: "ColorMapper p = Inr c" by simp
  define w2 where "w2 = w1\<lparr>printed := InitLine vk (s_idx p) (p_name p) (current_val p) # printed w1\<rparr>"
  have step: "initialize_leds_loop (kp # rest) w = initialize_leds_loop rest w2"
    by (simp only: kp initialize_leds_loop.simps pc then_do_None py_print_def w2_def)
  obtain w' R' where ih: "initialize_leds_loop rest w2 = (None, w')"
    "monitored_params w' = monitored_params w2" "vm w' = vm w2"
    "requests w' = R' @ requests w2"
    "fst ` set R' \<subseteq> (\<lambda>kp. led_id (snd kp)) ` set rest"
    and ihd: "distinct (map (\<lambda>kp. led_id (snd kp)) rest) \<longrightarrow>
          (\<forall>kq \<in> set rest.
             map_option Inr (map_of R' (led_id (snd kq))) = Some (ColorMapper (snd kq)))"
    using Cons.IH [of w2] by blast
  define R where "R = R' @ [(led_id p, c)]"
  have a1: "initialize_leds_loop (kp # rest) w = (None, w')"
    by (simp only: step ih(1))
  have a2: "monitored_params w' = monitored_params w" "vm w' = vm w"
    using ih(2,3) w1 by (simp_all add: w2_def)
  have a3: "requests w' = R @ requests w"
    using ih(4) w1 by (simp add: w2_def R_def)
  have a4: "fst ` set R \<subseteq> (\<lambda>kp. led_id (snd kp)) ` set (kp # rest)"
    using ih(5) by (auto simp add: R_def kp)
  have a5: "distinct (map (\<lambda>kp. led_id (snd kp)) (kp # rest)) \<longrightarrow>
          (\<forall>kq \<in> set (kp # rest).
             map_option Inr (map_of R (led_id (snd kq))) = Some (ColorMapper (snd kq)))"
  proof (intro impI ballI)
    fix kq
    assume d: "distinct (map (\<lambda>kp. led_id (snd kp)) (kp # rest))"
      and m: "kq \<in> set (kp # rest)"
    from d have fresh: "led_id p \<notin> (\<lambda>kp. led_id (snd kp)) ` set rest"
      and dr: "distinct (map (\<lambda>kp. led_id (snd kp)) rest)"
      by (simp_all add: kp)
    show "map_option Inr (map_of R (led_id (snd kq))) = Some (ColorMapper (snd kq))"
    proof (cases "kq = kp")
      case True
      from fresh ih(5) have "led_id p \<notin> fst ` set R'" by blast
      then have "map_of R (led_id p) = Some c"
        unfolding R_def by (rule map_of_snoc_new)
      with c show ?thesis by (simp add: True kp)
    next
      case False
      with m have mr: "kq \<in> set rest" by simp
      with ihd dr
      have "map_option Inr (map_of R' (led_id (snd kq))) = Some (ColorMapper (snd kq))"
        by blast
      then obtain x where x: "map_of R' (led_id (snd kq)) = Some x"
        and cx: "ColorMapper (snd kq) = Inr x"
        by (cases "map_of R' (led_id (snd kq))") auto
      from x have "map_of R (led_id (snd kq)) = Some x"
        unfolding R_def by (rule map_of_append_old)
      with cx show ?thesis by simp
    qed
  qed
  from a1 a2 a3 a4 a5 show ?case by blast
qed

lemma initialize_leds_in_sync:
  assumes "well_formed w"
  shows "fst (initialize_leds w) = None
     \<and> monitored_params (snd (initialize_leds w)) = monitored_params w
     \<and> in_sync (snd (initialize_leds w))"
proof -
  obtain w' R where r: "initialize_leds_loop (monitored_params w) w = (None, w')"
    and mp: "monitored_params w' = monitored_params w"
    and rq: "requests w' = R @ requests w"
    and d: "distinct (map (\<lambda>kp. led_id (snd kp)) (monitored_params w)) \<longrightarrow>
          (\<forall>kq \<in> set (monitored_params w).
             map_option Inr (map_of R (led_id (snd kq))) = Some (ColorMapper (snd kq)))"
    using initialize_leds_loop_effect [of "monitored_params w" w] by blast
  from assms d have all: "\<forall>kq \<in> set (monitored_params w).
      map_option Inr (map_of R (led_id (snd kq))) = Some (ColorMapper (snd kq))"
    by (simp add: well_formed_def)
  have "in_sync w'"
    unfolding in_sync_def
  proof (rule ballI)
    fix kq
    assume "kq \<in> set (monitored_params w')"
    then have m: "kq \<in> set (monitored_params w)" by (simp only: mp)
    with all have "map_option Inr (map_of R (led_id (snd kq))) = Some (ColorMapper (snd kq))"
      by blast
    then obtain x where x: "map_of R (led_id (snd kq)) = Some x"
      and cx: "ColorMapper (snd kq) = Inr x"
      by (cases "map_of R (led_id (snd kq))") auto
    from x have lp: "last_pushed w' (led_id (snd kq)) = Some x"
      unfolding last_pushed_def rq by (rule map_of_append_old)
    obtain k q where kq: "kq = (k, q)" by (cases kq)
    from lp cx have "map_option Inr (last_pushed w' (led_id q)) = Some (ColorMapper q)"
      by (simp add: kq)
    then show "case kq of (vk, p) \<Rightarrow>
        map_option Inr (last_pushed w' (led_id p)) = Some (ColorMapper p)"
      by (simp add: kq)
  qed
  with r mp show ?thesis by (simp add: initialize_leds_def)
qed

lemma update_absent:
  assumes "k \<notin> fst ` set al"
  shows "AList.update k v al = al @ [(k, v)]"
  using assms by (induction al) auto

lemma ParameterObserver_init_loop_static:
  assumes "distinct (map fst cfg)"
    and "fst ` set cfg \<inter> fst ` set (monitored_params w) = {}"
    and "fst (ParameterObserver_init_loop cfg w) = None"
  shows "map static_part (monitored_params (snd (ParameterObserver_init_loop cfg w)))
           = map static_part (monitored_params w) @ cfg"
  using assms
proof (induction cfg arbitrary: w)
  case Nil
  show ?case by simp
next
  case (Cons e rest)
  obtain vk si pn lid ig rg where e: "e = (vk, (si, pn, lid, ig, rg))"
    by (cases e) auto
  from Cons.prems(1) have dr: "distinct (map fst rest)" and nr: "vk \<notin> fst ` set rest"
    by (simp_all add: e)
  from Cons.prems(2) have nw: "vk \<notin> fst ` set (monitored_params w)"
    and disj: "fst ` set rest \<inter> fst ` set (monitored_params w) = {}"
    by (auto simp add: e)
  show ?case
  proof (cases "vm w (si, pn)")
    case None
    then have "fst (ParameterObserver_init_loop (e # rest) w) = Some (VmError (si, pn))"
      by (simp add: e vm_getattr_def)
    with Cons.prems(3) show ?thesis by simp
  next
    case (Some cur)
    define entry where "entry =
      \<lparr>s_idx = si, p_name = pn, current_val = cur, led_id = lid, is_gain = ig, rng = rg\<rparr>"
    define w1 where "w1 = w\<lparr>monitored_params := monitored_params w @ [(vk, entry)]\<rparr>"
    have step: "ParameterObserver_init_loop (e # rest) w = ParameterObserver_init_loop rest w1"
      using Some update_absent [OF nw, of entry]
      by (simp add: e vm_getattr_def store_param_def entry_def w1_def)
    have mp1: "monitored_params w1 = monitored_params w @ [(vk, entry)]"
      by (simp add: w1_def)
    have disj1: "fst ` set rest \<inter> fst ` set (monitored_params w1) = {}"
      using disj nr by (auto simp add: mp1)
    have ok1: "fst (ParameterObserver_init_loop rest w1) = None"
      using Cons.prems(3) by (simp only: step)
    have "map static_part (monitored_params (snd (ParameterObserver_init_loop rest w1)))
           = map static_part (monitored_params w1) @ rest"
      using dr disj1 ok1 by (rule Cons.IH)
    moreover have "static_part (vk, entry) = e"
      by (simp add: static_part_def entry_def e)
    ultimately show ?thesis
      by (simp only: step mp1) simp
  qed
qed

lemma STRIP_CONFIG_keys: "distinct (map fst STRIP_CONFIG)"
  by (simp add: STRIP_CONFIG_def)

lemma STRIP_CONFIG_leds: "distinct (map (\<lambda>s. fst (snd (snd (snd s)))) STRIP_CONFIG)"
  by (simp add: STRIP_CONFIG_def)

lemma ParameterObserver_init_static:
  assumes "fst (ParameterObserver_init w0) = None"
  shows "map static_part (monitored_params (snd (ParameterObserver_init w0))) = STRIP_CONFIG"
proof -
  have "map static_part
      (monitored_params
        (snd (ParameterObserver_init_loop STRIP_CONFIG (w0\<lparr>monitored_params := []\<rparr>))))
      = map static_part (monitored_params (w0\<lparr>monitored_params := []\<rparr>)) @ STRIP_CONFIG"
    using STRIP_CONFIG_keys _ assms [unfolded ParameterObserver_init_def]
    by (rule ParameterObserver_init_loop_static) simp
  then show ?thesis by (simp add: ParameterObserver_init_def)
qed

lemma ParameterObserver_init_well_formed:
  assumes "fst (ParameterObserver_init w0) = None"
  shows "well_formed (snd (ParameterObserver_init w0))"
proof -
  let ?mp = "monitored_params (snd (ParameterObserver_init w0))"
  have st: "map static_part ?mp = STRIP_CONFIG"
    using assms by (rule ParameterObserver_init_static)
  have "map fst ?mp = map fst STRIP_CONFIG"
    using static_part_keys [of ?mp] by (simp only: st)
  moreover have "map (\<lambda>kp. led_id (snd kp)) ?mp
      = map (\<lambda>s. fst (snd (snd (snd s)))) STRIP_CONFIG"
    using static_part_leds [of ?mp] by (simp only: st)
  ultimately show ?thesis
    unfolding well_formed_def using STRIP_CONFIG_keys STRIP_CONFIG_leds by simp
qed

lemma ParameterObserver_init_loop_succeeds:
  assumes "\<forall>e \<in> set cfg. vm w (fst (snd e), fst (snd (snd e))) \<noteq> None"
  shows "fst (ParameterObserver_init_loop cfg w) = None"
  using assms
proof (induction cfg arbitrary: w)
  case Nil
  show ?case by simp
next
  case (Cons e rest)
  obtain vk si pn lid ig rg where e: "e = (vk, (si, pn, lid, ig, rg))"
    by (cases e) auto
  from Cons.prems obtain cur where cur: "vm w (si, pn) = Some cur"
    by (auto simp add: e)
  define w1 where "w1 = w\<lparr>monitored_params := AList.update vk
      \<lparr>s_idx = si, p_name = pn, current_val = cur, led_id = lid, is_gain = ig, rng = rg\<rparr>
      (monitored_params w)\<rparr>"
  have step: "ParameterObserver_init_loop (e # rest) w = ParameterObserver_init_loop rest w1"
    using cur by (simp add: e vm_getattr_def store_param_def w1_def)
  have "\<forall>e \<in> set rest. vm w1 (fst (snd e), fst (snd (snd e))) \<noteq> None"
    using Cons.prems by (simp add: w1_def)
  then have "fst (ParameterObserver_init_loop rest w1) = None"
    by (rule Cons.IH)
  then show ?case by (simp only: step)
qed

lemma then_do_cases:
  "fst r \<noteq> None \<and> then_do r f = r \<or> fst r = None \<and> then_do r f = f (snd r)"
  by (cases r; cases "fst r") auto

lemma distinct_keys_static:
  assumes "map static_part (monitored_params w') = map static_part (monitored_params w)"
    and "distinct (map fst (monitored_params w))"
  shows "distinct (map fst (monitored_params w'))"
  using assms static_part_distinct_keys [OF assms(1)] by simp

lemma run_ops_inv:
  assumes "distinct (map fst (monitored_params w))"
  shows "map static_part (monitored_params (snd (run_ops ops w)))
           = map static_part (monitored_params w)
     \<and> (well_formed w \<and> in_sync w \<longrightarrow> in_sync (snd (run_ops ops w)))"
  using assms
proof (induction ops arbitrary: w)
  case Nil
  show ?case by simp
next
  case (Cons op ops)
  note dk = Cons.prems
  have chain: "map static_part (monitored_params (snd (then_do r (\<lambda>w'. run_ops ops w'))))
           = map static_part (monitored_params w)
     \<and> (well_formed w \<and> in_sync w \<longrightarrow> in_sync (snd (then_do r (\<lambda>w'. run_ops ops w'))))"
    if st: "map static_part (monitored_params (snd r)) = map static_part (monitored_params w)"
      and sy: "well_formed w \<and> in_sync w \<longrightarrow> in_sync (snd r)" for r
  proof -
    have dk1: "distinct (map fst (monitored_params (snd r)))"
      using st dk by (rule distinct_keys_static)
    have wf1: "well_formed (snd r) = well_formed w"
      using st by (rule well_formed_static)
    from then_do_cases [of r "\<lambda>w'. run_ops ops w'"] show ?thesis
    proof
      assume "fst r \<noteq> None \<and> then_do r (\<lambda>w'. run_ops ops w') = r"
      then have "then_do r (\<lambda>w'. run_ops ops w') = r" ..
      with st sy show ?thesis by simp
    next
      assume "fst r = None \<and> then_do r (\<lambda>w'. run_ops ops w') = run_ops ops (snd r)"
      then have eq: "then_do r (\<lambda>w'. run_ops ops w') = run_ops ops (snd r)" ..
      from Cons.IH [OF dk1] st sy wf1 show ?thesis unfolding eq by simp
    qed
  qed
  show ?case
  proof (cases op)
    case (Toggle vk)
    have "map static_part (monitored_params (snd (toggle_strip w vk)))
        = map static_part (monitored_params w)"
      by (rule toggle_strip_static)
    moreover have "well_formed w \<and> in_sync w \<longrightarrow> in_sync (snd (toggle_strip w vk))"
      using toggle_strip_in_sync by blast
    ultimately show ?thesis
      unfolding Toggle run_ops.simps by (rule chain)
  next
    case Reconcile
    from check_updates_inv [OF dk]
    have "map static_part (monitored_params (snd (check_updates w)))
        = map static_part (monitored_params w)"
      and "well_formed w \<and> in_sync w \<longrightarrow> in_sync (snd (check_updates w))"
      by simp_all
    then show ?thesis
      unfolding Reconcile run_ops.simps by (rule chain)
  next
    case (External m d)
    define w1 where "w1 = w\<lparr>vm := m, device := d\<rparr>"
    have same: "monitored_params w1 = monitored_params w" "requests w1 = requests w"
      by (simp_all add: w1_def)
    have dk1: "distinct (map fst (monitored_params w1))"
      using dk by (simp only: same)
    have "well_formed w1 = well_formed w" by (simp add: well_formed_def same)
    moreover have "in_sync w1 = in_sync w" using same(2,1) by (rule in_sync_same)
    ultimately show ?thesis
      using Cons.IH [OF dk1] unfolding External run_ops.simps w1_def [symmetric]
      by (simp add: same)
  qed
qed

lemma full_world_init: "fst (ParameterObserver_init full_world) = None"
  unfolding ParameterObserver_init_def
  by (rule ParameterObserver_init_loop_succeeds) (simp add: STRIP_CONFIG_def full_world_def)

text \<open>
  Claim C1. Once the observer is constructed and \<open>initialize_leds\<close> has run, and after
  every sequence of toggles and reconciliation passes (with any changes made to the
  mixer and the device from outside in between), for every tracked binding the color
  last requested for its LED is the color mapper's output on the stored value:
  \<open>colorForBoolean\<close> for a Boolean binding, \<open>color_for_gain\<close> with the reference pair
  for a gain binding. This holds at the end of every operation, also of one that an
  exception of the mixer ended. \<open>initialize_leds\<close> itself never raises.
\<close>

theorem indicators_in_sync:
  assumes "fst (ParameterObserver_init w0) = None"
  shows "fst (initialize_leds (snd (ParameterObserver_init w0))) = None
     \<and> in_sync (snd (initialize_leds (snd (ParameterObserver_init w0))))
     \<and> in_sync (snd (run_ops ops (snd (initialize_leds (snd (ParameterObserver_init w0))))))"
proof -
  define w1 where "w1 = snd (ParameterObserver_init w0)"
  define w2 where "w2 = snd (initialize_leds w1)"
  have wf1: "well_formed w1"
    unfolding w1_def using assms by (rule ParameterObserver_init_well_formed)
  from initialize_leds_in_sync [OF wf1]
  have ok: "fst (initialize_leds w1) = None"
    and mp2: "monitored_params w2 = monitored_params w1"
    and sy2: "in_sync w2"
    by (simp_all add: w2_def)
  from mp2 have "map static_part (monitored_params w2) = map static_part (monitored_params w1)"
    by simp
  then have "well_formed w2 = well_formed w1" by (rule well_formed_static)
  with wf1 have wf2: "well_formed w2" by simp
  then have dk2: "distinct (map fst (monitored_params w2))"
    by (simp add: well_formed_def)
  from run_ops_inv [OF dk2, of ops] wf2 sy2 have "in_sync (snd (run_ops ops w2))"
    by simp
  with ok sy2 show ?thesis
    unfolding w2_def w1_def by simp
qed

theorem indicators_in_sync_witness:
  "fst (ParameterObserver_init full_world) = None
   \<and> map static_part (monitored_params (snd (ParameterObserver_init full_world))) = STRIP_CONFIG
   \<and> in_sync (snd (initialize_leds (snd (ParameterObserver_init full_world))))
   \<and> in_sync (snd (run_ops [Toggle 104, External (vm full_world) (device full_world), Reconcile]
        (snd (initialize_leds (snd (ParameterObserver_init full_world))))))"
proof -
  have h: "fst (ParameterObserver_init full_world) = None"
    by (rule full_world_init)
  have s: "map static_part (monitored_params (snd (ParameterObserver_init full_world)))
      = STRIP_CONFIG"
    using h by (rule ParameterObserver_init_static)
  from indicators_in_sync
    [OF h, of "[Toggle 104, External (vm full_world) (device full_world), Reconcile]"] h s
  show ?thesis by (intro conjI) (elim conjE, assumption)+
qed

text \<open>
  Claim C10. The constructor leaves \<open>monitored_params\<close> with the keys and the fixed
  fields of \<open>STRIP_CONFIG\<close>, in its order. \<open>initialize_leds\<close> changes no entry;
  a toggle, a reconciliation pass and any sequence of them leave the keys, their order,
  and strip index, parameter name, LED id, gain flag and range of every entry as they
  were, so that only stored values change; a toggle of one key leaves the entry of
  every other key as it was. For the pass, the keys are taken to be distinct, as those
  of a dictionary are.
\<close>

theorem entries_fixed:
  "(fst (ParameterObserver_init w0) = None \<longrightarrow>
      map static_part (monitored_params (snd (ParameterObserver_init w0))) = STRIP_CONFIG)
   \<and> monitored_params (snd (initialize_leds w)) = monitored_params w
   \<and> map static_part (monitored_params (snd (toggle_strip w vk)))
       = map static_part (monitored_params w)
   \<and> (\<forall>k. k \<noteq> vk \<longrightarrow>
        map_of (monitored_params (snd (toggle_strip w vk))) k = map_of (monitored_params w) k)
   \<and> (distinct (map fst (monitored_params w)) \<longrightarrow>
        map static_part (monitored_params (snd (check_updates w)))
          = map static_part (monitored_params w)
      \<and> map static_part (monitored_params (snd (run_ops ops w)))
          = map static_part (monitored_params w))"
proof (intro conjI impI allI)
  assume "fst (ParameterObserver_init w0) = None"
  then show "map static_part (monitored_params (snd (ParameterObserver_init w0))) = STRIP_CONFIG"
    by (rule ParameterObserver_init_static)
next
  obtain w' where "initialize_leds_loop (monitored_params w) w = (None, w')"
    and "monitored_params w' = monitored_params w"
    using initialize_leds_loop_effect [of "monitored_params w" w] by blast
  then show "monitored_params (snd (initialize_leds w)) = monitored_params w"
    by (simp add: initialize_leds_def)
next
  show "map static_part (monitored_params (snd (toggle_strip w vk)))
       = map static_part (monitored_params w)"
    by (rule toggle_strip_static)
next
  fix k
  assume "k \<noteq> vk"
  then show "map_of (monitored_params (snd (toggle_strip w vk))) k
      = map_of (monitored_params w) k"
    by (rule toggle_strip_others)
next
  assume "distinct (map fst (monitored_params w))"
  then show "map static_part (monitored_params (snd (check_updates w)))
          = map static_part (monitored_params w)"
    using check_updates_inv by blast
next
  assume "distinct (map fst (monitored_params w))"
  then show "map static_part (monitored_params (snd (run_ops ops w)))
          = map static_part (monitored_params w)"
    using run_ops_inv by blast
qed

theorem entries_fixed_witness:
  "fst (ParameterObserver_init full_world) = None
   \<and> (104::int) \<noteq> 97
   \<and> distinct (map fst (monitored_params example_world))
   \<and> map static_part (monitored_params (snd (ParameterObserver_init full_world))) = STRIP_CONFIG
   \<and> map_of (monitored_params (snd (toggle_strip example_world 97))) 104 = Some gain_entry
   \<and> map static_part (monitored_params (snd (check_updates example_world)))
       = [(97, (0, ''B1'', 116, False, None)), (104, (5, ''gain'', 110, True, Some [0, - 30]))]
   \<and> map static_part (monitored_params (snd (run_ops [Toggle 104, Reconcile] example_world)))
       = [(97, (0, ''B1'', 116, False, None)), (104, (5, ''gain'', 110, True, Some [0, - 30]))]"
proof -
  have h1: "fst (ParameterObserver_init full_world) = None"
    by (rule full_world_init)
  have h2: "(104::int) \<noteq> 97" by simp
  have h3: "distinct (map fst (monitored_params example_world))"
    by (simp add: example_world_def)
  have st: "map static_part (monitored_params example_world)
      = [(97, (0, ''B1'', 116, False, None)), (104, (5, ''gain'', 110, True, Some [0, - 30]))]"
    by (simp add: example_world_def static_part_def mute_entry_def gain_entry_def)
  have lk: "map_of (monitored_params example_world) 104 = Some gain_entry"
    by (simp add: example_world_def)
  note inst = entries_fixed [of full_world example_world 97 "[Toggle 104, Reconcile]"]
  from inst h1
  have c1: "map static_part (monitored_params (snd (ParameterObserver_init full_world)))
      = STRIP_CONFIG"
    by simp
  from inst h2
  have c2: "map_of (monitored_params (snd (toggle_strip example_world 97))) 104
      = map_of (monitored_params example_world) 104"
    by blast
  from inst h3
  have c3: "map static_part (monitored_params (snd (check_updates example_world)))
      = map static_part (monitored_params example_world)"
    and c4: "map static_part
        (monitored_params (snd (run_ops [Toggle 104, Reconcile] example_world)))
      = map static_part (monitored_params example_world)"
    by simp_all
  from h1 h2 h3 c1 c2 c3 c4 show ?thesis
    by (simp only: st lk) simp
qed

end
